theory Spec2Isabelle
  imports Main "HOL-Library.Word"
begin

section \<open>The C environment: the heap and the allocator\<close>

text \<open>
  The source is \<^verbatim>\<open>libcperciva/datastruct/elasticarray.c\<close>. Its \<^verbatim>\<open>size_t\<close> is an
  unsigned machine integer whose width depends on the platform, so every definition is
  written for \<open>'a word\<close> with \<open>'a\<close> the width of \<^verbatim>\<open>size_t\<close> (32 on ILP32, 64 on LP64):
  \<open>+\<close>, \<open>-\<close> and \<open>*\<close> wrap around and \<open>div\<close>, \<open><\<close> are unsigned, as in C.

  Pointers are addresses of live allocations; \<open>None\<close> is \<^verbatim>\<open>NULL\<close>. A function of the
  model returns \<open>None\<close> where the C program has no defined behaviour or aborts: a
  dereference or \<^verbatim>\<open>free\<close> of a pointer that is not live, a \<^verbatim>\<open>memcpy\<close> outside a
  block, a division by a zero record length, a failed \<^verbatim>\<open>assert\<close>.
\<close>

type_synonym addr = nat
type_synonym byte = "8 word"

text \<open>\<^verbatim>\<open>struct elasticarray { size_t size; size_t alloc; void * buf; }\<close>\<close>

record 'w elasticarray =
  size_bytes :: 'w
  alloc :: 'w
  buf :: "addr option"

text \<open>
  What the allocator answers to one \<^verbatim>\<open>malloc\<close> or \<^verbatim>\<open>realloc\<close> request: it refuses, or
  it grants the request, saying whether a reallocated block moves and which bytes the
  uninitialised part of the block happens to hold.
\<close>

datatype grant = Refuse | Grant bool "nat \<Rightarrow> byte"

text \<open>
  The memory: the live \<^verbatim>\<open>struct elasticarray\<close> objects, the live byte blocks, the next
  unused address, the allocator's answers to the requests to come, the number of requests
  made so far, and \<^verbatim>\<open>errno\<close>.
\<close>

record 'w mem =
  objs :: "addr \<rightharpoonup> 'w elasticarray"
  blocks :: "addr \<rightharpoonup> byte list"
  brk :: addr
  answers :: "nat \<Rightarrow> grant"
  requests :: nat
  errno :: int

text \<open>
  \<^verbatim>\<open>ENOMEM\<close> is the value that \<^verbatim>\<open><errno.h>\<close> gives it on Linux and the BSDs; no result
  depends on the number. \<^verbatim>\<open>SIZE_MAX\<close> is the largest value of \<^verbatim>\<open>size_t\<close>. A refused
  \<^verbatim>\<open>malloc\<close> or \<^verbatim>\<open>realloc\<close> sets \<^verbatim>\<open>errno\<close> to \<^verbatim>\<open>ENOMEM\<close>, as POSIX has it.
\<close>

definition ENOMEM :: int where
  "ENOMEM = 12"

definition SIZE_MAX :: "'a::len word" where
  "SIZE_MAX = - 1"

definition malloc :: "nat \<Rightarrow> 'w mem \<Rightarrow> addr option \<times> 'w mem" where
  "malloc n m =
     (case answers m (requests m) of
        Refuse \<Rightarrow> (None, m\<lparr>requests := Suc (requests m), errno := ENOMEM\<rparr>)
      | Grant mv junk \<Rightarrow>
          (Some (brk m),
           m\<lparr>blocks := (blocks m)(brk m \<mapsto> map junk [0..<n]),
             brk := Suc (brk m),
             requests := Suc (requests m)\<rparr>))"

text \<open>
  \<^verbatim>\<open>realloc(p, n)\<close> for \<open>n > 0\<close> (the source never asks for zero bytes). On refusal the
  old block stays as it is; on success the first \<open>min n (length old)\<close> bytes are kept.
\<close>

definition realloc :: "addr option \<Rightarrow> nat \<Rightarrow> 'w mem \<Rightarrow> (addr option \<times> 'w mem) option" where
  "realloc p n m =
     (case p of
        None \<Rightarrow> Some (malloc n m)
      | Some a \<Rightarrow>
          (case blocks m a of
             None \<Rightarrow> None
           | Some old \<Rightarrow>
               (case answers m (requests m) of
                  Refuse \<Rightarrow> Some (None, m\<lparr>requests := Suc (requests m), errno := ENOMEM\<rparr>)
                | Grant mv junk \<Rightarrow>
                    Some (Some (if mv then brk m else a),
                          m\<lparr>blocks := ((blocks m)(a := None))
                                 ((if mv then brk m else a) \<mapsto>
                                    take n old @ map junk [length old..<n]),
                            brk := (if mv then Suc (brk m) else brk m),
                            requests := Suc (requests m)\<rparr>))))"

definition free :: "addr option \<Rightarrow> 'w mem \<Rightarrow> 'w mem option" where
  "free p m =
     (case p of
        None \<Rightarrow> Some m
      | Some a \<Rightarrow>
          (case blocks m a of
             None \<Rightarrow> None
           | Some old \<Rightarrow> Some (m\<lparr>blocks := (blocks m)(a := None)\<rparr>)))"

text \<open>
  \<^verbatim>\<open>malloc(sizeof(struct elasticarray))\<close>. The fields of the fresh object are
  indeterminate in C; \<^verbatim>\<open>elasticarray_init\<close> assigns all three before any read, so the
  model allocates the object with the values of that assignment.
\<close>

definition malloc_struct :: "'a::len word mem \<Rightarrow> addr option \<times> 'a word mem" where
  "malloc_struct m =
     (case answers m (requests m) of
        Refuse \<Rightarrow> (None, m\<lparr>requests := Suc (requests m), errno := ENOMEM\<rparr>)
      | Grant mv junk \<Rightarrow>
          (Some (brk m),
           m\<lparr>objs := (objs m)(brk m \<mapsto> \<lparr>size_bytes = 0, alloc = 0, buf = None\<rparr>),
             brk := Suc (brk m),
             requests := Suc (requests m)\<rparr>))"

definition free_struct :: "addr \<Rightarrow> 'w mem \<Rightarrow> 'w mem option" where
  "free_struct ea m =
     (case objs m ea of
        None \<Rightarrow> None
      | Some E \<Rightarrow> Some (m\<lparr>objs := (objs m)(ea := None)\<rparr>))"

text \<open>
  \<^verbatim>\<open>memcpy((uint8_t *)p + off, src, k)\<close>: the \<open>k\<close> bytes at \<open>off\<close> of the block at \<open>p\<close>
  become the first \<open>k\<close> bytes of \<open>src\<close>.
\<close>

definition memcpy_to :: "addr option \<Rightarrow> nat \<Rightarrow> byte list \<Rightarrow> nat \<Rightarrow> 'w mem \<Rightarrow> 'w mem option" where
  "memcpy_to p off src k m =
     (case p of
        None \<Rightarrow> None
      | Some a \<Rightarrow>
          (case blocks m a of
             None \<Rightarrow> None
           | Some bs \<Rightarrow>
               if off + k \<le> length bs \<and> k \<le> length src
               then Some (m\<lparr>blocks := (blocks m)(a \<mapsto> take off bs @ take k src @ drop (off + k) bs)\<rparr>)
               else None))"

section \<open>The elastic array\<close>

text \<open>Lines 27 to 38 of \<^verbatim>\<open>resize\<close>: how large an allocation we want.\<close>

definition new_alloc :: "'a::len word \<Rightarrow> 'a word \<Rightarrow> 'a word" where
  "new_alloc A nsize =
     (if A < nsize then (let nalloc = A * 2 in if nalloc < nsize then nsize else nalloc)
      else if A > nsize * 4 then nsize * 2
      else A)"

text \<open>The static \<^verbatim>\<open>resize(EA, nsize)\<close>; the result is the C return value, 0 or -1.\<close>

definition resize :: "addr \<Rightarrow> 'a::len word \<Rightarrow> 'a word mem \<Rightarrow> (int \<times> 'a word mem) option" where
  "resize ea nsize m =
     (case objs m ea of
        None \<Rightarrow> None
      | Some E \<Rightarrow>
          (let nalloc = new_alloc (alloc E) nsize in
           if nalloc = 0 then
             (case free (buf E) m of
                None \<Rightarrow> None
              | Some m1 \<Rightarrow>
                  Some (0, m1\<lparr>objs := (objs m1)(ea \<mapsto> E\<lparr>buf := None, alloc := 0, size_bytes := nsize\<rparr>)\<rparr>))
           else if nalloc \<noteq> alloc E then
             (case realloc (buf E) (unat nalloc) m of
                None \<Rightarrow> None
              | Some (None, m1) \<Rightarrow> Some (- 1, m1)
              | Some (Some nbuf, m1) \<Rightarrow>
                  Some (0, m1\<lparr>objs := (objs m1)(ea \<mapsto> E\<lparr>buf := Some nbuf, alloc := nalloc, size_bytes := nsize\<rparr>)\<rparr>))
           else Some (0, m\<lparr>objs := (objs m)(ea \<mapsto> E\<lparr>size_bytes := nsize\<rparr>)\<rparr>)))"

definition elasticarray_resize ::
  "addr \<Rightarrow> 'a::len word \<Rightarrow> 'a word \<Rightarrow> 'a word mem \<Rightarrow> (int \<times> 'a word mem) option" where
  "elasticarray_resize ea nrec reclen m =
     (if reclen = 0 then None
      else if nrec > SIZE_MAX div reclen then Some (- 1, m\<lparr>errno := ENOMEM\<rparr>)
      else
        (case resize ea (nrec * reclen) m of
           None \<Rightarrow> None
         | Some (r, m1) \<Rightarrow> if r \<noteq> 0 then Some (- 1, m1) else Some (0, m1)))"

definition elasticarray_free :: "addr option \<Rightarrow> 'w mem \<Rightarrow> 'w mem option" where
  "elasticarray_free p m =
     (case p of
        None \<Rightarrow> Some m
      | Some ea \<Rightarrow>
          (case objs m ea of
             None \<Rightarrow> None
           | Some E \<Rightarrow>
               (case free (buf E) m of
                  None \<Rightarrow> None
                | Some m1 \<Rightarrow> free_struct ea m1)))"

text \<open>\<^verbatim>\<open>elasticarray_init\<close>; \<open>None\<close> is the failed \<^verbatim>\<open>assert(reclen > 0)\<close>.\<close>

definition elasticarray_init ::
  "'a::len word \<Rightarrow> 'a word \<Rightarrow> 'a word mem \<Rightarrow> (addr option \<times> 'a word mem) option" where
  "elasticarray_init nrec reclen m =
     (if reclen = 0 then None
      else
        (case malloc_struct m of
           (None, m1) \<Rightarrow> Some (None, m1)
         | (Some ea, m1) \<Rightarrow>
             (let m2 = m1\<lparr>objs := (objs m1)(ea \<mapsto> \<lparr>size_bytes = 0, alloc = 0, buf = None\<rparr>)\<rparr> in
              case elasticarray_resize ea nrec reclen m2 of
                None \<Rightarrow> None
              | Some (r, m3) \<Rightarrow>
                  if r \<noteq> 0 then
                    (case elasticarray_free (Some ea) m3 of
                       None \<Rightarrow> None
                     | Some m4 \<Rightarrow> Some (None, m4))
                  else Some (Some ea, m3))))"

definition elasticarray_getsize :: "addr \<Rightarrow> 'a::len word \<Rightarrow> 'a word mem \<Rightarrow> 'a word option" where
  "elasticarray_getsize ea reclen m =
     (case objs m ea of
        None \<Rightarrow> None
      | Some E \<Rightarrow> if reclen = 0 then None else Some (size_bytes E div reclen))"

text \<open>
  \<^verbatim>\<open>elasticarray_append(EA, buf, nrec, reclen)\<close>; \<open>src\<close> is the bytes that the caller's
  \<^verbatim>\<open>buf\<close> points to.
\<close>

definition elasticarray_append ::
  "addr \<Rightarrow> byte list \<Rightarrow> 'a::len word \<Rightarrow> 'a word \<Rightarrow> 'a word mem \<Rightarrow> (int \<times> 'a word mem) option" where
  "elasticarray_append ea src nrec reclen m =
     (case objs m ea of
        None \<Rightarrow> None
      | Some E \<Rightarrow>
          (let bufpos = size_bytes E in
           if reclen = 0 then None
           else if nrec > SIZE_MAX div reclen \<or> nrec * reclen > SIZE_MAX - size_bytes E
           then Some (- 1, m\<lparr>errno := ENOMEM\<rparr>)
           else
             (case resize ea (size_bytes E + nrec * reclen) m of
                None \<Rightarrow> None
              | Some (r, m1) \<Rightarrow>
                  if r \<noteq> 0 then Some (- 1, m1)
                  else if nrec > 0 then
                    (case objs m1 ea of
                       None \<Rightarrow> None
                     | Some E1 \<Rightarrow>
                         (case memcpy_to (buf E1) (unat bufpos) src (unat (nrec * reclen)) m1 of
                            None \<Rightarrow> None
                          | Some m2 \<Rightarrow> Some (0, m2)))
                  else Some (0, m1))))"

definition elasticarray_shrink ::
  "addr \<Rightarrow> 'a::len word \<Rightarrow> 'a word \<Rightarrow> 'a word mem \<Rightarrow> 'a word mem option" where
  "elasticarray_shrink ea nrec reclen m =
     (case objs m ea of
        None \<Rightarrow> None
      | Some E \<Rightarrow>
          if reclen = 0 then None
          else
            (let nsize = (if nrec > SIZE_MAX div reclen \<or> nrec * reclen > size_bytes E
                          then 0 else size_bytes E - nrec * reclen) in
             case resize ea nsize m of
               None \<Rightarrow> None
             | Some (r, m1) \<Rightarrow>
                 if r \<noteq> 0 then
                   (case objs m1 ea of
                      None \<Rightarrow> None
                    | Some E1 \<Rightarrow> Some (m1\<lparr>objs := (objs m1)(ea \<mapsto> E1\<lparr>size_bytes := nsize\<rparr>)\<rparr>))
                 else Some m1))"

definition elasticarray_truncate :: "addr \<Rightarrow> 'a::len word mem \<Rightarrow> (int \<times> 'a word mem) option" where
  "elasticarray_truncate ea m =
     (case objs m ea of
        None \<Rightarrow> None
      | Some E \<Rightarrow>
          if size_bytes E = 0 then
            (case free (buf E) m of
               None \<Rightarrow> None
             | Some m1 \<Rightarrow> Some (0, m1\<lparr>objs := (objs m1)(ea \<mapsto> E\<lparr>buf := None, alloc := 0\<rparr>)\<rparr>))
          else if alloc E > size_bytes E then
            (case realloc (buf E) (unat (size_bytes E)) m of
               None \<Rightarrow> None
             | Some (None, m1) \<Rightarrow> Some (- 1, m1)
             | Some (Some nbuf, m1) \<Rightarrow>
                 Some (0, m1\<lparr>objs := (objs m1)(ea \<mapsto> E\<lparr>buf := Some nbuf, alloc := size_bytes E\<rparr>)\<rparr>))
          else Some (0, m))"

text \<open>
  \<^verbatim>\<open>elasticarray_get(EA, pos, reclen)\<close>: the pointer \<^verbatim>\<open>(uint8_t *)buf + pos * reclen\<close>, as
  the base allocation and the byte offset into it.
\<close>

type_synonym ptr = "addr option \<times> nat"

definition elasticarray_get :: "addr \<Rightarrow> 'a::len word \<Rightarrow> 'a word \<Rightarrow> 'a word mem \<Rightarrow> ptr option" where
  "elasticarray_get ea pos reclen m =
     (case objs m ea of
        None \<Rightarrow> None
      | Some E \<Rightarrow> Some (buf E, unat (pos * reclen)))"

text \<open>
  \<^verbatim>\<open>elasticarray_iter(EA, reclen, fp)\<close>. The callback is a C function: it gets the
  pointer and may change any part of the memory. The loop reads the record count again
  before every call and passes \<^verbatim>\<open>elasticarray_get(EA, reclen, i)\<close>, with the record
  length in the place of \<open>pos\<close> and the index in the place of \<open>reclen\<close>, as the source
  does. The list \<open>calls\<close> records the pointers handed to \<open>fp\<close>, in the order of the calls.
\<close>

function iter_loop ::
  "addr \<Rightarrow> 'a::len word \<Rightarrow> (ptr \<Rightarrow> 'a word mem \<Rightarrow> 'a word mem) \<Rightarrow> 'a word \<Rightarrow> ptr list
     \<Rightarrow> 'a word mem \<Rightarrow> (ptr list \<times> 'a word mem) option" where
  "iter_loop ea reclen fp i calls m =
     (case elasticarray_getsize ea reclen m of
        None \<Rightarrow> None
      | Some n \<Rightarrow>
          if i < n then
            (case elasticarray_get ea reclen i m of
               None \<Rightarrow> None
             | Some p \<Rightarrow> iter_loop ea reclen fp (i + 1) (calls @ [p]) (fp p m))
          else Some (calls, m))"
  by pat_completeness auto
termination
proof (relation "measure (\<lambda>(ea, reclen, fp, i, calls, m). 2 ^ LENGTH('a) - unat i)")
  show "wf (measure (\<lambda>(ea, reclen, fp, i :: 'a word, calls, m). 2 ^ LENGTH('a) - unat i))"
    by simp
next
  fix ea :: addr and reclen :: "'a word" and fp :: "ptr \<Rightarrow> 'a word mem \<Rightarrow> 'a word mem"
    and i :: "'a word" and calls :: "ptr list" and m :: "'a word mem" and n :: "'a word" and p :: ptr
  assume "i < n"
  then have "unat i < unat n"
    by (simp add: word_less_nat_alt)
  moreover have "unat n < 2 ^ LENGTH('a)"
    by (rule unsigned_less)
  ultimately have "Suc (unat i) < 2 ^ LENGTH('a)"
    by linarith
  then have "unat i + unat (1 :: 'a word) < 2 ^ LENGTH('a)"
    by simp
  then have "unat (i + 1) = unat i + unat (1 :: 'a word)"
    by (rule unat_add_lem [THEN iffD1])
  moreover have "unat (i + 1) < 2 ^ LENGTH('a)"
    by (rule unsigned_less)
  ultimately show "((ea, reclen, fp, i + 1, calls @ [p], fp p m), (ea, reclen, fp, i, calls, m))
      \<in> measure (\<lambda>(ea, reclen, fp, i :: 'a word, calls, m). 2 ^ LENGTH('a) - unat i)"
    by simp
qed

declare iter_loop.simps [simp del]

definition elasticarray_iter ::
  "addr \<Rightarrow> 'a::len word \<Rightarrow> (ptr \<Rightarrow> 'a word mem \<Rightarrow> 'a word mem) \<Rightarrow> 'a word mem
     \<Rightarrow> (ptr list \<times> 'a word mem) option" where
  "elasticarray_iter ea reclen fp m = iter_loop ea reclen fp 0 [] m"

text \<open>
  The two exports write through the caller's \<^verbatim>\<open>buf\<close> and \<^verbatim>\<open>nrec\<close> pointers. The model
  returns, beside the C return value, what was written to each: \<open>None\<close> when the
  caller's variable was left alone, \<open>Some v\<close> when \<open>v\<close> was stored.
\<close>

type_synonym 'w outs = "addr option option \<times> 'w option"

definition elasticarray_export ::
  "addr \<Rightarrow> 'a::len word \<Rightarrow> 'a word mem \<Rightarrow> ((int \<times> 'a word outs) \<times> 'a word mem) option" where
  "elasticarray_export ea reclen m =
     (case elasticarray_truncate ea m of
        None \<Rightarrow> None
      | Some (r, m1) \<Rightarrow>
          if r \<noteq> 0 then Some ((- 1, None, None), m1)
          else
            (case objs m1 ea of
               None \<Rightarrow> None
             | Some E \<Rightarrow>
                 (case elasticarray_getsize ea reclen m1 of
                    None \<Rightarrow> None
                  | Some n \<Rightarrow>
                      (case free_struct ea m1 of
                         None \<Rightarrow> None
                       | Some m2 \<Rightarrow> Some ((0, Some (buf E), Some n), m2)))))"

text \<open>
  \<^verbatim>\<open>memcpy(dst, p, k)\<close> from the start of the block at \<open>p\<close> to the start of the block at
  \<open>dst\<close>. With \<open>k = 0\<close> nothing is read or written, also from \<^verbatim>\<open>NULL\<close>, which is what
  \<^verbatim>\<open>elasticarray_exportdup\<close> passes for an empty array.
\<close>

definition memcpy_from :: "addr \<Rightarrow> addr option \<Rightarrow> nat \<Rightarrow> 'w mem \<Rightarrow> 'w mem option" where
  "memcpy_from dst p k m =
     (if k = 0 then Some m
      else
        (case p of
           None \<Rightarrow> None
         | Some a \<Rightarrow>
             (case blocks m a of
                None \<Rightarrow> None
              | Some bs \<Rightarrow> memcpy_to (Some dst) 0 bs k m)))"

definition elasticarray_exportdup ::
  "addr \<Rightarrow> 'a::len word \<Rightarrow> 'a word mem \<Rightarrow> ((int \<times> 'a word outs) \<times> 'a word mem) option" where
  "elasticarray_exportdup ea reclen m =
     (case objs m ea of
        None \<Rightarrow> None
      | Some E \<Rightarrow>
          (case malloc (unat (size_bytes E)) m of
             (None, m1) \<Rightarrow> Some ((- 1, Some None, None), m1)
           | (Some nb, m1) \<Rightarrow>
               (case memcpy_from nb (buf E) (unat (size_bytes E)) m1 of
                  None \<Rightarrow> None
                | Some m2 \<Rightarrow>
                    (case elasticarray_getsize ea reclen m2 of
                       None \<Rightarrow> None
                     | Some n \<Rightarrow> Some ((0, Some (Some nb), Some n), m2)))))"

text \<open>
  A sequence of appends with one record length, each given as the source bytes and the
  record count; it stops at the first append that does not return 0.
\<close>

fun append_all ::
  "addr \<Rightarrow> 'a::len word \<Rightarrow> (byte list \<times> 'a word) list \<Rightarrow> 'a word mem \<Rightarrow> 'a word mem option" where
  "append_all ea reclen [] m = Some m"
| "append_all ea reclen ((src, nrec) # xs) m =
     (case elasticarray_append ea src nrec reclen m of
        None \<Rightarrow> None
      | Some (r, m1) \<Rightarrow> if r \<noteq> 0 then None else append_all ea reclen xs m1)"

text \<open>
  Lines 45 to 51 of \<^verbatim>\<open>resize\<close>: the call of \<^verbatim>\<open>realloc\<close> is reached when the wanted
  allocation is neither zero nor the current one.
\<close>

definition reallocates :: "'a::len word \<Rightarrow> 'a word \<Rightarrow> bool" where
  "reallocates A nsize = (new_alloc A nsize \<noteq> 0 \<and> new_alloc A nsize \<noteq> A)"

section \<open>The data model of the specification\<close>

text \<open>
  The invariants of the buffer at \<open>ea\<close>: the wrapper is live, the logical size is at most
  the allocated size, and the storage is present exactly when the allocated size is
  positive, in which case it is a live block of that many bytes.
\<close>

definition ea_inv :: "'a::len word mem \<Rightarrow> addr \<Rightarrow> bool" where
  "ea_inv m ea =
     (case objs m ea of
        None \<Rightarrow> False
      | Some E \<Rightarrow>
          size_bytes E \<le> alloc E \<and>
          (case buf E of
             None \<Rightarrow> alloc E = 0
           | Some p \<Rightarrow>
               alloc E \<noteq> 0 \<and>
               (case blocks m p of
                  None \<Rightarrow> False
                | Some bs \<Rightarrow> length bs = unat (alloc E))))"

text \<open>The content of the buffer: the first \<open>size\<close> bytes of its storage.\<close>

definition content :: "'a::len word mem \<Rightarrow> addr \<Rightarrow> byte list" where
  "content m ea =
     (case objs m ea of
        None \<Rightarrow> []
      | Some E \<Rightarrow>
          (case buf E of
             None \<Rightarrow> []
           | Some p \<Rightarrow>
               (case blocks m p of
                  None \<Rightarrow> []
                | Some bs \<Rightarrow> take (unat (size_bytes E)) bs)))"

text \<open>
  The allocation policy in the words of the specification (section 4.1), over the natural
  numbers, where nothing wraps: grow to \<open>max(T, 2A)\<close>, shrink to \<open>2T\<close> when \<open>A > 4T\<close>,
  else keep \<open>A\<close>.
\<close>

definition spec_new_alloc :: "nat \<Rightarrow> nat \<Rightarrow> nat" where
  "spec_new_alloc A T = (if A < T then max T (2 * A) else if A > 4 * T then 2 * T else A)"

text \<open>
  The storage of the buffer at \<open>ea\<close>: its \<^verbatim>\<open>buf\<close> pointer, \<open>None\<close> when it is absent.
\<close>

definition storage :: "'w mem \<Rightarrow> addr \<Rightarrow> addr option" where
  "storage m ea = (case objs m ea of None \<Rightarrow> None | Some E \<Rightarrow> buf E)"

text \<open>
  Iteration in the words of the specification (section 4.2): \<open>fn\<close> is invoked once for each
  index of the list, in the order of the list, on the record at byte offset \<open>index * len\<close>
  of the storage as it is at that invocation. The result is the list of the records handed
  to \<open>fn\<close>, in the order of the invocations, and the memory after the last one.
\<close>

primrec spec_iterate ::
  "addr \<Rightarrow> nat \<Rightarrow> (ptr \<Rightarrow> 'w mem \<Rightarrow> 'w mem) \<Rightarrow> nat list \<Rightarrow> 'w mem \<Rightarrow> ptr list \<times> 'w mem" where
  "spec_iterate ea len fn [] m = ([], m)"
| "spec_iterate ea len fn (i # is) m =
     (let p = (storage m ea, i * len);
          r = spec_iterate ea len fn is (fn p m)
      in (p # fst r, snd r))"

text \<open>
  The bound on the slack: a non-empty buffer holds at most four times its logical size.
\<close>

definition compact :: "'a::len word mem \<Rightarrow> addr \<Rightarrow> bool" where
  "compact m ea =
     (case objs m ea of
        None \<Rightarrow> False
      | Some E \<Rightarrow> size_bytes E \<noteq> 0 \<longrightarrow> unat (alloc E) \<le> 4 * unat (size_bytes E))"

section \<open>Concrete memories\<close>

text \<open>
  An allocator that grants every request (moving the block, the fresh bytes zero), one that
  refuses every request, the empty memory, and a memory holding one array at address 1
  whose storage is the block at address 2.
\<close>

definition grant_all :: "nat \<Rightarrow> grant" where
  "grant_all i = Grant True (\<lambda>j. 0)"

definition refuse_all :: "nat \<Rightarrow> grant" where
  "refuse_all i = Refuse"

definition mem_empty :: "(nat \<Rightarrow> grant) \<Rightarrow> 'a::len word mem" where
  "mem_empty ans =
     \<lparr>objs = Map.empty, blocks = Map.empty, brk = 1, answers = ans, requests = 0, errno = 0\<rparr>"

definition mem_one :: "(nat \<Rightarrow> grant) \<Rightarrow> 'a::len word \<Rightarrow> 'a word \<Rightarrow> byte list \<Rightarrow> 'a word mem" where
  "mem_one ans sz al bs =
     \<lparr>objs = [1 \<mapsto> \<lparr>size_bytes = sz, alloc = al, buf = Some 2\<rparr>], blocks = [2 \<mapsto> bs],
      brk = 3, answers = ans, requests = 0, errno = 0\<rparr>"

text \<open>An allocator that grants the first request only.\<close>

definition grant_first :: "nat \<Rightarrow> grant" where
  "grant_first i = (if i = 0 then Grant True (\<lambda>j. 0) else Refuse)"

text \<open>
  Three callbacks for \<^verbatim>\<open>elasticarray_iter\<close>. The first stores 0 in the first byte of the
  record it is given. The second ignores its record and calls
  \<^verbatim>\<open>elasticarray_shrink(EA, 1, reclen)\<close> on the array at \<open>ea\<close>, as a C callback can through a
  global variable. The third calls \<^verbatim>\<open>elasticarray_truncate(EA)\<close> in the same way and ignores
  what it returns.
\<close>

definition zero_first :: "ptr \<Rightarrow> 'w mem \<Rightarrow> 'w mem" where
  "zero_first p m =
     (case p of
        (None, off) \<Rightarrow> m
      | (Some a, off) \<Rightarrow>
          (case blocks m a of
             None \<Rightarrow> m
           | Some bs \<Rightarrow> m\<lparr>blocks := (blocks m)(a \<mapsto> bs[off := 0])\<rparr>))"

definition drop_last :: "addr \<Rightarrow> 'a::len word \<Rightarrow> ptr \<Rightarrow> 'a word mem \<Rightarrow> 'a word mem" where
  "drop_last ea reclen p m =
     (case elasticarray_shrink ea 1 reclen m of None \<Rightarrow> m | Some m' \<Rightarrow> m')"

definition trim :: "addr \<Rightarrow> ptr \<Rightarrow> 'a::len word mem \<Rightarrow> 'a word mem" where
  "trim ea p m = (case elasticarray_truncate ea m of None \<Rightarrow> m | Some (r, m') \<Rightarrow> m')"

text \<open>
  With a 32-bit \<^verbatim>\<open>size_t\<close>: the memory after \<^verbatim>\<open>elasticarray_init(0x80000000, 1)\<close> from the
  empty memory, when the allocator grants both requests. The array holds \<open>2^31\<close> bytes.
\<close>

definition big_mem :: "32 word mem" where
  "big_mem =
     \<lparr>objs = [1 \<mapsto> \<lparr>size_bytes = 0x80000000, alloc = 0x80000000, buf = Some 2\<rparr>],
      blocks = [2 \<mapsto> map (\<lambda>j. 0) [0..<2147483648]],
      brk = 3, answers = grant_all, requests = 2, errno = 0\<rparr>"

section \<open>Size arithmetic\<close>

lemma unat_SIZE_MAX: "unat (SIZE_MAX :: 'a::len word) = 2 ^ LENGTH('a) - 1"
  by (simp add: SIZE_MAX_def unsigned_minus_1_eq_mask mask_eq_exp_minus_1)

text \<open>The guard \<^verbatim>\<open>nrec > SIZE_MAX / reclen\<close> holds exactly when the product overflows.\<close>

lemma overflow_check:
  fixes nrec reclen :: "'a::len word"
  assumes "reclen \<noteq> 0"
  shows "(nrec > SIZE_MAX div reclen) = (2 ^ LENGTH('a) \<le> unat nrec * unat reclen)"
proof -
  from assms have r: "0 < unat reclen"
    by (simp add: unat_gt_0)
  have "(nrec > SIZE_MAX div reclen) = ((2 ^ LENGTH('a) - 1) div unat reclen < unat nrec)"
    by (simp add: word_less_nat_alt unat_div unat_SIZE_MAX)
  also have "\<dots> = (2 ^ LENGTH('a) - 1 < unat nrec * unat reclen)"
    using r by (rule div_less_iff_less_mult)
  also have "\<dots> = (2 ^ LENGTH('a) \<le> unat nrec * unat reclen)"
    using zero_less_power [of "2 :: nat" "LENGTH('a)"] by arith
  finally show ?thesis .
qed

lemma no_overflow_mult:
  fixes nrec reclen :: "'a::len word"
  assumes "reclen \<noteq> 0" and "\<not> nrec > SIZE_MAX div reclen"
  shows "unat (nrec * reclen) = unat nrec * unat reclen"
  using assms by (simp add: overflow_check unat_mult_lem [THEN iffD1])

lemma nat_div_sub:
  fixes a n r :: nat
  assumes r: "0 < r" and le: "n * r \<le> a"
  shows "(a - n * r) div r = a div r - n"
proof -
  define t where "t = a - n * r"
  with le have a: "a = n * r + t"
    by simp
  from r have "a div r = n + t div r"
    unfolding a by simp
  then show ?thesis
    by (simp add: t_def)
qed

lemma unat_two:
  assumes "2 \<le> LENGTH('a::len)"
  shows "unat (2 :: 'a word) = 2"
proof -
  from assms have "(2 :: nat) ^ 2 \<le> 2 ^ LENGTH('a)"
    by (intro power_increasing) simp_all
  then have "(2 :: nat) < 2 ^ LENGTH('a)"
    by simp
  moreover have "unat (2 :: 'a word) = 2 mod 2 ^ LENGTH('a)"
    by (rule unat_numeral)
  ultimately show ?thesis
    by (simp only: mod_less)
qed

lemma size_max_times_two:
  assumes "2 \<le> LENGTH('a::len)"
  shows "(2 :: 'a word) \<noteq> 0" and "2 ^ LENGTH('a) \<le> unat (SIZE_MAX :: 'a word) * unat (2 :: 'a word)"
proof -
  from assms have two: "unat (2 :: 'a word) = 2"
    by (rule unat_two)
  then show "(2 :: 'a word) \<noteq> 0"
    by (metis unat_0 zero_neq_numeral)
  from assms have "(2 :: nat) ^ 2 \<le> 2 ^ LENGTH('a)"
    by (intro power_increasing) simp_all
  then have "(2 :: nat) \<le> 2 ^ LENGTH('a)"
    by simp
  then have "2 ^ LENGTH('a) \<le> (2 ^ LENGTH('a) - 1) * (2 :: nat)"
    by linarith
  then show "2 ^ LENGTH('a) \<le> unat (SIZE_MAX :: 'a word) * unat (2 :: 'a word)"
    by (simp only: two unat_SIZE_MAX)
qed

lemma unat_times_numeral:
  fixes x :: "'a::len word"
  assumes "numeral k * unat x < 2 ^ LENGTH('a)"
  shows "unat (x * numeral k) = numeral k * unat x"
proof -
  have "unat (x * numeral k) = unat x * (numeral k mod 2 ^ LENGTH('a)) mod 2 ^ LENGTH('a)"
    by (simp only: unat_word_ariths unat_numeral)
  also have "\<dots> = unat x * numeral k mod 2 ^ LENGTH('a)"
    by (simp only: mod_mult_right_eq)
  also have "\<dots> = numeral k * unat x"
    using assms by (simp add: mult.commute)
  finally show ?thesis .
qed


lemma record_offset:
  fixes i reclen s :: "'a::len word"
  assumes "reclen \<noteq> 0" and "i < s div reclen"
  shows "unat (reclen * i) = unat i * unat reclen"
proof -
  from assms(1) have r: "0 < unat reclen"
    by (simp add: unat_gt_0)
  from assms(2) have "Suc (unat i) \<le> unat s div unat reclen"
    by (simp add: word_less_nat_alt unat_div)
  with r have "Suc (unat i) * unat reclen \<le> unat s"
    by (simp only: less_eq_div_iff_mult_less_eq)
  moreover have "unat s < 2 ^ LENGTH('a)"
    by (rule unsigned_less)
  moreover have "unat i * unat reclen \<le> Suc (unat i) * unat reclen"
    by simp
  ultimately have "unat i * unat reclen < 2 ^ LENGTH('a)"
    by linarith
  then have "unat reclen * unat i < 2 ^ LENGTH('a)"
    by (simp only: mult.commute)
  then have "unat (reclen * i) = unat reclen * unat i"
    by (rule unat_mult_lem [THEN iffD1])
  then show ?thesis
    by (simp add: mult.commute)
qed

lemma unat_succ:
  fixes i n :: "'a::len word"
  assumes "i < n"
  shows "unat (i + 1) = Suc (unat i)"
proof -
  from assms have "unat i < unat n"
    by (simp add: word_less_nat_alt)
  moreover have "unat n < 2 ^ LENGTH('a)"
    by (rule unsigned_less)
  ultimately have "Suc (unat i) < 2 ^ LENGTH('a)"
    by linarith
  then have "unat i + unat (1 :: 'a word) < 2 ^ LENGTH('a)"
    by simp
  then have "unat (i + 1) = unat i + unat (1 :: 'a word)"
    by (rule unat_add_lem [THEN iffD1])
  then show ?thesis
    by simp
qed

lemma upt_0_3: "[0..<3] = [0, 1, 2]"
  by (simp add: numeral_3_eq_3)

lemma unat_times_le:
  fixes x :: "'a::len word"
  shows "unat (x * numeral k) \<le> numeral k * unat x"
proof -
  have "unat (x * numeral k) = unat x * (numeral k mod 2 ^ LENGTH('a)) mod 2 ^ LENGTH('a)"
    by (simp only: unat_word_ariths unat_numeral)
  also have "\<dots> = unat x * numeral k mod 2 ^ LENGTH('a)"
    by (simp only: mod_mult_right_eq)
  also have "\<dots> \<le> unat x * numeral k"
    by (rule mod_less_eq_dividend)
  finally show ?thesis
    by (simp only: mult.commute)
qed

lemma half_range:
  assumes "x < (2 :: nat) ^ (LENGTH('a::len) - 1)"
  shows "2 * x < 2 ^ LENGTH('a)"
proof -
  have "(2 :: nat) ^ LENGTH('a) = 2 * 2 ^ (LENGTH('a) - 1)"
    by (metis len_gt_0 power_eq_if not_gr_zero)
  with assms show ?thesis
    by linarith
qed

lemma map_const_upt: "map (\<lambda>j. c) [a..<b] = replicate (b - a) c"
  by (simp add: map_replicate_const)

section \<open>The internal resize\<close>

text \<open>\<^verbatim>\<open>resize\<close> fails only when the allocator refuses, and then nothing else changes.\<close>

lemma resize_fails:
  assumes "resize ea nsize m = Some (r, m1)" and "r \<noteq> 0"
  shows "r = - 1 \<and> m1 = m\<lparr>requests := Suc (requests m), errno := ENOMEM\<rparr> \<and>
         answers m (requests m) = Refuse"
  using assms
  by (auto simp: resize_def realloc_def malloc_def free_def Let_def
      split: option.splits if_splits grant.splits prod.splits)

lemma resize_refused:
  assumes "objs m ea = Some E" and "ea_inv m ea"
    and "new_alloc (alloc E) nsize \<noteq> 0" and "new_alloc (alloc E) nsize \<noteq> alloc E"
    and "answers m (requests m) = Refuse"
  shows "resize ea nsize m = Some (- 1, m\<lparr>requests := Suc (requests m), errno := ENOMEM\<rparr>)"
  using assms
  by (auto simp: resize_def realloc_def malloc_def ea_inv_def Let_def
      split: option.splits)

lemma resize_total:
  assumes "ea_inv m ea"
  shows "\<exists>r m1. resize ea nsize m = Some (r, m1)"
  using assms
  by (auto simp: resize_def realloc_def malloc_def free_def ea_inv_def Let_def
      split: option.splits grant.splits)

lemma resize_success:
  assumes "resize ea nsize m = Some (0, m1)" and "objs m ea = Some E"
  shows "\<exists>E1. objs m1 = (objs m)(ea \<mapsto> E1) \<and> size_bytes E1 = nsize \<and>
           alloc E1 = new_alloc (alloc E) nsize"
  using assms
  by (auto simp: resize_def realloc_def malloc_def free_def Let_def
      split: option.splits if_splits grant.splits prod.splits)

lemma resize_zero:
  assumes "ea_inv m ea" and "objs m ea = Some E"
  shows "resize ea 0 m =
     Some (0, m\<lparr>blocks := (case buf E of None \<Rightarrow> blocks m | Some p \<Rightarrow> (blocks m)(p := None)),
                objs := (objs m)(ea \<mapsto> \<lparr>size_bytes = 0, alloc = 0, buf = None\<rparr>)\<rparr>)"
proof -
  have "new_alloc (alloc E) 0 = 0"
    by (simp add: new_alloc_def word_gt_0)
  with assms show ?thesis
    by (cases E) (auto simp: resize_def free_def ea_inv_def split: option.splits)
qed

section \<open>The allocation policy\<close>

lemma new_alloc_grow:
  fixes A T :: "'a::len word"
  assumes "A < T" and "2 * unat A < 2 ^ LENGTH('a)"
  shows "unat (new_alloc A T) = max (unat T) (2 * unat A)"
proof -
  from assms(2) have "unat (A * 2) = 2 * unat A"
    by (rule unat_times_numeral)
  with assms(1) show ?thesis
    by (simp add: new_alloc_def Let_def word_less_nat_alt)
qed

lemma new_alloc_grow_wrapped:
  fixes A T :: "'a::len word"
  assumes "A < T" and "2 ^ LENGTH('a) \<le> 2 * unat A"
  shows "new_alloc A T = T"
proof -
  have lt: "unat A < 2 ^ LENGTH('a)"
    by (rule unsigned_less)
  have "A * 2 = A + A"
    by (rule mult_2_right)
  moreover have "unat (A + A) =
      (if unat A + unat A < 2 ^ LENGTH('a) then unat A + unat A
       else unat A + unat A - 2 ^ LENGTH('a))"
    by (rule unat_plus_if')
  moreover have "\<not> unat A + unat A < 2 ^ LENGTH('a)"
    using assms(2) by linarith
  ultimately have "unat (A * 2) = unat A + unat A - 2 ^ LENGTH('a)"
    by (simp only: if_False)
  then have "unat (A * 2) < unat A"
    using lt assms(2) by linarith
  with assms(1) have "A * 2 < T"
    by (simp add: word_less_nat_alt)
  with assms(1) show ?thesis
    by (simp add: new_alloc_def)
qed

lemma new_alloc_keep_or_shrink:
  fixes A T :: "'a::len word"
  assumes "\<not> A < T" and "4 * unat T < 2 ^ LENGTH('a)"
  shows "unat (new_alloc A T) = (if unat A > 4 * unat T then 2 * unat T else unat A)"
proof -
  from assms(2) have "unat (T * 4) = 4 * unat T"
    by (rule unat_times_numeral)
  moreover from assms(2) have "2 * unat T < 2 ^ LENGTH('a)"
    by linarith
  then have "unat (T * 2) = 2 * unat T"
    by (rule unat_times_numeral)
  ultimately show ?thesis
    using assms(1) by (simp add: new_alloc_def word_less_nat_alt)
qed

lemma resize_release:
  assumes "ea_inv m ea" and "objs m ea = Some E" and "new_alloc (alloc E) nsize = 0"
  shows "resize ea nsize m =
     Some (0, m\<lparr>blocks := (case buf E of None \<Rightarrow> blocks m | Some p \<Rightarrow> (blocks m)(p := None)),
                objs := (objs m)(ea \<mapsto> \<lparr>size_bytes = nsize, alloc = 0, buf = None\<rparr>)\<rparr>)"
  using assms
  by (cases E) (auto simp: resize_def free_def ea_inv_def split: option.splits)

text \<open>
  Claim C3, as the specification states it, reads the formulas \<open>max(T, 2A)\<close>, \<open>A > 4T\<close> and
  \<open>2T\<close> over the integers. The code computes \<^verbatim>\<open>alloc * 2\<close>, \<^verbatim>\<open>nsize * 4\<close> and
  \<^verbatim>\<open>nsize * 2\<close> in \<^verbatim>\<open>size_t\<close>, where they wrap. With 64 bits, \<open>A = 2^63\<close> and
  \<open>T = 2^63 + 1\<close> the code asks for \<open>T\<close> bytes, not for \<open>max(T, 2A) = 2^64\<close>; with 32 bits
  and \<open>A = T = 2^30\<close> it asks for \<open>2^31\<close> bytes, where the stated policy keeps \<open>A\<close>.
\<close>

theorem new_alloc_wraps:
  "unat (new_alloc (0x8000000000000000 :: 64 word) 0x8000000000000001)
     \<noteq> spec_new_alloc (unat (0x8000000000000000 :: 64 word)) (unat (0x8000000000000001 :: 64 word)) \<and>
   unat (new_alloc (0x40000000 :: 32 word) 0x40000000)
     \<noteq> spec_new_alloc (unat (0x40000000 :: 32 word)) (unat (0x40000000 :: 32 word))"
  by (simp add: new_alloc_def spec_new_alloc_def)

text \<open>
  Claim C3, amended. When \<open>2A\<close> (in the growing case) and \<open>4T\<close> (otherwise) fit in
  \<^verbatim>\<open>size_t\<close>, the wanted allocation is the one of the stated policy. When the array must
  grow and \<open>2A\<close> does not fit, the wanted allocation is \<open>T\<close>. Whenever the wanted allocation
  is 0, \<^verbatim>\<open>resize\<close> releases the storage (the block is freed, \<^verbatim>\<open>buf\<close> is \<^verbatim>\<open>NULL\<close>,
  \<^verbatim>\<open>alloc\<close> is 0) and sends no request to the allocator. Nothing is said of the case
  where the array need not grow and \<open>4T\<close> does not fit.
\<close>

theorem new_alloc_policy:
  fixes A T :: "'a::len word"
  shows
    "((unat A < unat T \<longrightarrow> 2 * unat A < 2 ^ LENGTH('a)) \<and>
      (unat T \<le> unat A \<longrightarrow> 4 * unat T < 2 ^ LENGTH('a)) \<longrightarrow>
        unat (new_alloc A T) = spec_new_alloc (unat A) (unat T)) \<and>
     (unat A < unat T \<longrightarrow> 2 ^ LENGTH('a) \<le> 2 * unat A \<longrightarrow> new_alloc A T = T) \<and>
     (ea_inv m ea \<longrightarrow> objs m ea = Some E \<longrightarrow> new_alloc (alloc E) T = 0 \<longrightarrow>
        resize ea T m =
          Some (0, m\<lparr>blocks := (case buf E of None \<Rightarrow> blocks m | Some p \<Rightarrow> (blocks m)(p := None)),
                     objs := (objs m)(ea \<mapsto> \<lparr>size_bytes = T, alloc = 0, buf = None\<rparr>)\<rparr>))"
proof (intro conjI impI)
  assume h: "(unat A < unat T \<longrightarrow> 2 * unat A < 2 ^ LENGTH('a)) \<and>
             (unat T \<le> unat A \<longrightarrow> 4 * unat T < 2 ^ LENGTH('a))"
  show "unat (new_alloc A T) = spec_new_alloc (unat A) (unat T)"
  proof (cases "A < T")
    case True
    with h have "2 * unat A < 2 ^ LENGTH('a)"
      by (simp add: word_less_nat_alt)
    with True have "unat (new_alloc A T) = max (unat T) (2 * unat A)"
      by (rule new_alloc_grow)
    with True show ?thesis
      by (simp add: spec_new_alloc_def word_less_nat_alt)
  next
    case False
    with h have "4 * unat T < 2 ^ LENGTH('a)"
      by (simp add: word_less_nat_alt)
    with False have "unat (new_alloc A T) = (if unat A > 4 * unat T then 2 * unat T else unat A)"
      by (rule new_alloc_keep_or_shrink)
    with False show ?thesis
      by (simp add: spec_new_alloc_def word_less_nat_alt)
  qed
next
  assume "unat A < unat T" and "2 ^ LENGTH('a) \<le> 2 * unat A"
  then show "new_alloc A T = T"
    by (intro new_alloc_grow_wrapped) (simp_all add: word_less_nat_alt)
next
  assume "ea_inv m ea" and "objs m ea = Some E" and "new_alloc (alloc E) T = 0"
  then show "resize ea T m =
          Some (0, m\<lparr>blocks := (case buf E of None \<Rightarrow> blocks m | Some p \<Rightarrow> (blocks m)(p := None)),
                     objs := (objs m)(ea \<mapsto> \<lparr>size_bytes = T, alloc = 0, buf = None\<rparr>)\<rparr>)"
    by (rule resize_release)
qed

theorem new_alloc_policy_witness:
  "unat (new_alloc (8 :: 64 word) 20) = spec_new_alloc 8 20 \<and>
   unat (new_alloc (8 :: 64 word) 12) = spec_new_alloc 8 12 \<and>
   unat (new_alloc (100 :: 64 word) 10) = spec_new_alloc 100 10 \<and>
   unat (new_alloc (40 :: 64 word) 10) = spec_new_alloc 40 10 \<and>
   new_alloc (0xC000000000000000 :: 64 word) 0xF000000000000000 = 0xF000000000000000 \<and>
   ea_inv (mem_one grant_all 6 8 [1, 2, 3, 4, 5, 6, 7, 8] :: 64 word mem) 1 \<and>
   new_alloc (8 :: 64 word) 0 = 0 \<and>
   resize 1 0 (mem_one grant_all 6 8 [1, 2, 3, 4, 5, 6, 7, 8] :: 64 word mem) =
     Some (0, mem_one grant_all 6 8 [1, 2, 3, 4, 5, 6, 7, 8]
                \<lparr>blocks := Map.empty, objs := [1 \<mapsto> \<lparr>size_bytes = 0, alloc = 0, buf = None\<rparr>]\<rparr>)"
  using new_alloc_policy [of "8 :: 64 word" 20]
    new_alloc_policy [of "8 :: 64 word" 12]
    new_alloc_policy [of "100 :: 64 word" 10]
    new_alloc_policy [of "40 :: 64 word" 10]
    new_alloc_policy [of "0xC000000000000000 :: 64 word" "0xF000000000000000"]
    new_alloc_policy [of "8 :: 64 word" 0 "mem_one grant_all 6 8 [1, 2, 3, 4, 5, 6, 7, 8]" 1
      "\<lparr>size_bytes = 6, alloc = 8, buf = Some 2\<rparr>"]
  by (simp add: mem_one_def ea_inv_def new_alloc_def)

section \<open>Overflow of the byte count\<close>

lemma resize_overflow:
  fixes nrec reclen :: "'a::len word"
  assumes "reclen \<noteq> 0" and "2 ^ LENGTH('a) \<le> unat nrec * unat reclen"
  shows "elasticarray_resize ea nrec reclen m = Some (- 1, m\<lparr>errno := ENOMEM\<rparr>)"
  using assms by (simp add: elasticarray_resize_def overflow_check)

lemma append_overflow:
  fixes nrec reclen :: "'a::len word"
  assumes "reclen \<noteq> 0" and "objs m ea = Some E"
    and "2 ^ LENGTH('a) \<le> unat (size_bytes E) + unat nrec * unat reclen"
  shows "elasticarray_append ea src nrec reclen m = Some (- 1, m\<lparr>errno := ENOMEM\<rparr>)"
proof (cases "nrec > SIZE_MAX div reclen")
  case True
  with assms(1,2) show ?thesis
    by (simp add: elasticarray_append_def)
next
  case False
  with assms(1) have "unat (nrec * reclen) = unat nrec * unat reclen"
    by (rule no_overflow_mult)
  moreover have "unat (SIZE_MAX - size_bytes E) = unat (SIZE_MAX :: 'a word) - unat (size_bytes E)"
    by (rule unat_sub) (simp add: SIZE_MAX_def)
  then have "unat (SIZE_MAX - size_bytes E) = 2 ^ LENGTH('a) - 1 - unat (size_bytes E)"
    by (simp only: unat_SIZE_MAX)
  moreover have "unat (size_bytes E) < 2 ^ LENGTH('a)"
    by (rule unsigned_less)
  ultimately have "unat (SIZE_MAX - size_bytes E) < unat (nrec * reclen)"
    using assms(3) by linarith
  then have "nrec * reclen > SIZE_MAX - size_bytes E"
    by (simp only: word_less_nat_alt)
  with assms(1,2) show ?thesis
    by (simp add: elasticarray_append_def)
qed

lemma init_overflow:
  fixes nrec reclen :: "'a::len word"
  assumes "reclen \<noteq> 0" and "2 ^ LENGTH('a) \<le> unat nrec * unat reclen"
    and "objs m (brk m) = None"
  shows "\<exists>m'. elasticarray_init nrec reclen m = Some (None, m') \<and>
           objs m' = objs m \<and> blocks m' = blocks m"
proof (cases "answers m (requests m)")
  case Refuse
  with assms(1) show ?thesis
    by (simp add: elasticarray_init_def malloc_struct_def)
next
  case (Grant mv junk)
  have "(objs m)(brk m := None) = objs m"
    using assms(3) by (rule fun_upd_idem)
  with Grant assms(1,2) show ?thesis
    by (simp add: elasticarray_init_def malloc_struct_def resize_overflow
        elasticarray_free_def free_def free_struct_def)
qed

text \<open>
  Claim C4. When \<open>nrec * reclen\<close> does not fit in \<^verbatim>\<open>size_t\<close> (for append: when the
  logical size plus \<open>nrec * reclen\<close> does not fit), \<^verbatim>\<open>elasticarray_resize\<close> and
  \<^verbatim>\<open>elasticarray_append\<close> return -1 with \<^verbatim>\<open>errno = ENOMEM\<close> and the memory is otherwise
  exactly as before: no field of the array changes and no request reaches the allocator.
  \<^verbatim>\<open>elasticarray_init\<close> returns \<^verbatim>\<open>NULL\<close> and leaves the live objects and blocks as they
  were: the wrapper it had allocated, at an address that was unused, is released again
  (or was refused). In particular this is what
  happens for \<open>nrec = SIZE_MAX\<close> and \<open>reclen = 2\<close>, on every \<^verbatim>\<open>size_t\<close> of two bits or more.
\<close>

theorem overflow_rejected:
  fixes nrec reclen :: "'a::len word"
  assumes "reclen \<noteq> 0"
  shows "(2 ^ LENGTH('a) \<le> unat nrec * unat reclen \<longrightarrow>
            elasticarray_resize ea nrec reclen m = Some (- 1, m\<lparr>errno := ENOMEM\<rparr>) \<and>
            (objs m (brk m) = None \<longrightarrow>
               (\<exists>m'. elasticarray_init nrec reclen m = Some (None, m') \<and>
                     objs m' = objs m \<and> blocks m' = blocks m))) \<and>
         (objs m ea = Some E \<longrightarrow>
            2 ^ LENGTH('a) \<le> unat (size_bytes E) + unat nrec * unat reclen \<longrightarrow>
            elasticarray_append ea src nrec reclen m = Some (- 1, m\<lparr>errno := ENOMEM\<rparr>)) \<and>
         (2 \<le> LENGTH('a) \<longrightarrow>
            elasticarray_resize ea SIZE_MAX (2 :: 'a word) m = Some (- 1, m\<lparr>errno := ENOMEM\<rparr>) \<and>
            (objs m (brk m) = None \<longrightarrow>
               (\<exists>m'. elasticarray_init SIZE_MAX (2 :: 'a word) m = Some (None, m') \<and>
                     objs m' = objs m \<and> blocks m' = blocks m)) \<and>
            (objs m ea = Some E \<longrightarrow>
               elasticarray_append ea src SIZE_MAX (2 :: 'a word) m = Some (- 1, m\<lparr>errno := ENOMEM\<rparr>)))"
proof (intro conjI impI)
  assume "2 ^ LENGTH('a) \<le> unat nrec * unat reclen"
  with assms show "elasticarray_resize ea nrec reclen m = Some (- 1, m\<lparr>errno := ENOMEM\<rparr>)"
    by (rule resize_overflow)
next
  assume "2 ^ LENGTH('a) \<le> unat nrec * unat reclen" and "objs m (brk m) = None"
  with assms show "\<exists>m'. elasticarray_init nrec reclen m = Some (None, m') \<and>
                     objs m' = objs m \<and> blocks m' = blocks m"
    by (rule init_overflow)
next
  assume "objs m ea = Some E" and "2 ^ LENGTH('a) \<le> unat (size_bytes E) + unat nrec * unat reclen"
  with assms show "elasticarray_append ea src nrec reclen m = Some (- 1, m\<lparr>errno := ENOMEM\<rparr>)"
    by (rule append_overflow)
next
  assume "2 \<le> LENGTH('a)"
  then show "elasticarray_resize ea SIZE_MAX (2 :: 'a word) m = Some (- 1, m\<lparr>errno := ENOMEM\<rparr>)"
    by (intro resize_overflow size_max_times_two)
next
  assume "2 \<le> LENGTH('a)" and "objs m (brk m) = None"
  then show "\<exists>m'. elasticarray_init SIZE_MAX (2 :: 'a word) m = Some (None, m') \<and>
                     objs m' = objs m \<and> blocks m' = blocks m"
    by (intro init_overflow size_max_times_two)
next
  assume len: "2 \<le> LENGTH('a)" and E: "objs m ea = Some E"
  from len have ne: "(2 :: 'a word) \<noteq> 0"
    by (rule size_max_times_two)
  from len have "2 ^ LENGTH('a) \<le> unat (SIZE_MAX :: 'a word) * unat (2 :: 'a word)"
    by (rule size_max_times_two)
  then have "2 ^ LENGTH('a) \<le> unat (size_bytes E) + unat (SIZE_MAX :: 'a word) * unat (2 :: 'a word)"
    by linarith
  with ne E show "elasticarray_append ea src SIZE_MAX (2 :: 'a word) m = Some (- 1, m\<lparr>errno := ENOMEM\<rparr>)"
    by (rule append_overflow)
qed

theorem overflow_rejected_witness:
  "(8 :: 64 word) \<noteq> 0 \<and>
   2 ^ LENGTH(64) \<le> unat (0x2000000000000000 :: 64 word) * unat (8 :: 64 word) \<and>
   elasticarray_resize 1 0x2000000000000000 8 (mem_one grant_all 8 8 [1, 2, 3, 4, 5, 6, 7, 8] :: 64 word mem) =
     Some (- 1, mem_one grant_all 8 8 [1, 2, 3, 4, 5, 6, 7, 8]\<lparr>errno := ENOMEM\<rparr>) \<and>
   objs (mem_one grant_all 8 8 [1, 2, 3, 4, 5, 6, 7, 8] :: 64 word mem) 1 =
     Some \<lparr>size_bytes = 8, alloc = 8, buf = Some 2\<rparr> \<and>
   2 ^ LENGTH(64) \<le> unat (8 :: 64 word) + unat (0x1FFFFFFFFFFFFFFF :: 64 word) * unat (8 :: 64 word) \<and>
   elasticarray_append 1 [] 0x1FFFFFFFFFFFFFFF 8 (mem_one grant_all 8 8 [1, 2, 3, 4, 5, 6, 7, 8] :: 64 word mem) =
     Some (- 1, mem_one grant_all 8 8 [1, 2, 3, 4, 5, 6, 7, 8]\<lparr>errno := ENOMEM\<rparr>) \<and>
   elasticarray_append 1 [] SIZE_MAX 2 (mem_one grant_all 8 8 [1, 2, 3, 4, 5, 6, 7, 8] :: 64 word mem) =
     Some (- 1, mem_one grant_all 8 8 [1, 2, 3, 4, 5, 6, 7, 8]\<lparr>errno := ENOMEM\<rparr>) \<and>
   objs (mem_empty grant_all :: 64 word mem) (brk (mem_empty grant_all :: 64 word mem)) = None \<and>
   map_option fst (elasticarray_init SIZE_MAX 2 (mem_empty grant_all :: 64 word mem)) = Some None \<and>
   map_option (objs \<circ> snd) (elasticarray_init SIZE_MAX 2 (mem_empty grant_all :: 64 word mem)) = Some Map.empty \<and>
   map_option (blocks \<circ> snd) (elasticarray_init SIZE_MAX 2 (mem_empty grant_all :: 64 word mem)) = Some Map.empty"
  using overflow_rejected [of "8 :: 64 word" "0x2000000000000000" 1
      "mem_one grant_all 8 8 [1, 2, 3, 4, 5, 6, 7, 8]" "\<lparr>size_bytes = 8, alloc = 8, buf = Some 2\<rparr>" "[]"]
    overflow_rejected [of "8 :: 64 word" "0x1FFFFFFFFFFFFFFF" 1
      "mem_one grant_all 8 8 [1, 2, 3, 4, 5, 6, 7, 8]" "\<lparr>size_bytes = 8, alloc = 8, buf = Some 2\<rparr>" "[]"]
    overflow_rejected [of "8 :: 64 word" 1 1 "mem_empty grant_all"
      "\<lparr>size_bytes = 0, alloc = 0, buf = None\<rparr>" "[]"]
  by (auto simp: mem_one_def mem_empty_def)

section \<open>Shrinking\<close>

text \<open>The target size that \<^verbatim>\<open>elasticarray_shrink\<close> computes, in records.\<close>

lemma shrink_target:
  fixes nrec reclen s :: "'a::len word"
  assumes "reclen \<noteq> 0"
  defines "nsize \<equiv> (if nrec > SIZE_MAX div reclen \<or> nrec * reclen > s then 0 else s - nrec * reclen)"
  shows "unat (nsize div reclen) = unat (s div reclen) - unat nrec" and "nsize \<le> s"
proof -
  from assms(1) have r: "0 < unat reclen"
    by (simp add: unat_gt_0)
  have s: "unat s < 2 ^ LENGTH('a)"
    by (rule unsigned_less)
  show "unat (nsize div reclen) = unat (s div reclen) - unat nrec"
  proof (cases "nrec > SIZE_MAX div reclen")
    case True
    with assms(1) have "2 ^ LENGTH('a) \<le> unat nrec * unat reclen"
      by (simp add: overflow_check)
    with s have "unat s < unat nrec * unat reclen"
      by linarith
    with r have "unat s div unat reclen < unat nrec"
      by (simp add: div_less_iff_less_mult)
    with True show ?thesis
      by (simp add: nsize_def unat_div)
  next
    case False
    with assms(1) have m: "unat (nrec * reclen) = unat nrec * unat reclen"
      by (rule no_overflow_mult)
    show ?thesis
    proof (cases "nrec * reclen > s")
      case True
      with m have "unat s < unat nrec * unat reclen"
        by (simp add: word_less_nat_alt)
      with r have "unat s div unat reclen < unat nrec"
        by (simp add: div_less_iff_less_mult)
      with True show ?thesis
        by (simp add: nsize_def unat_div)
    next
      case le: False
      then have le': "nrec * reclen \<le> s"
        by (simp add: not_less)
      then have "unat (s - nrec * reclen) = unat s - unat nrec * unat reclen"
        by (simp add: unat_sub m)
      moreover from le' m have "unat nrec * unat reclen \<le> unat s"
        by (simp add: word_le_nat_alt)
      with r have "(unat s - unat nrec * unat reclen) div unat reclen = unat s div unat reclen - unat nrec"
        by (rule nat_div_sub)
      ultimately show ?thesis
        using False le by (simp add: nsize_def unat_div)
    qed
  qed
  show "nsize \<le> s"
  proof (cases "nrec > SIZE_MAX div reclen \<or> nrec * reclen > s")
    case True
    then show ?thesis
      by (simp add: nsize_def)
  next
    case False
    then have "nrec * reclen \<le> s"
      by (simp add: not_less)
    then have "unat (s - nrec * reclen) = unat s - unat (nrec * reclen)"
      by (rule unat_sub)
    with False show ?thesis
      by (simp add: nsize_def word_le_nat_alt)
  qed
qed

text \<open>
  Claim C6. \<^verbatim>\<open>elasticarray_shrink(EA, nrec, reclen)\<close> on a buffer that satisfies the
  invariants always returns (it has no failure result, and a refused reallocation inside
  it is absorbed), and afterwards the record count \<^verbatim>\<open>elasticarray_getsize(EA, reclen)\<close> is
  \<open>max(0, previous count - nrec)\<close>; when \<open>nrec\<close> exceeds the previous count the array is
  empty.
\<close>

theorem shrink_count:
  fixes nrec reclen :: "'a::len word"
  assumes "ea_inv m ea" and "reclen \<noteq> 0"
  shows "\<exists>c m' c'. elasticarray_getsize ea reclen m = Some c \<and>
           elasticarray_shrink ea nrec reclen m = Some m' \<and>
           elasticarray_getsize ea reclen m' = Some c' \<and>
           int (unat c') = max 0 (int (unat c) - int (unat nrec)) \<and>
           (unat c < unat nrec \<longrightarrow> c' = 0)"
proof -
  from assms(1) obtain E where E: "objs m ea = Some E"
    by (auto simp: ea_inv_def split: option.splits)
  define nsize where "nsize = (if nrec > SIZE_MAX div reclen \<or> nrec * reclen > size_bytes E
                               then 0 else size_bytes E - nrec * reclen)"
  from assms(1) obtain r m1 where res: "resize ea nsize m = Some (r, m1)"
    using resize_total by blast
  have "\<exists>m' E'. elasticarray_shrink ea nrec reclen m = Some m' \<and> objs m' ea = Some E' \<and>
          size_bytes E' = nsize"
  proof (cases "r = 0")
    case True
    with res E obtain E1 where "objs m1 = (objs m)(ea \<mapsto> E1)" and "size_bytes E1 = nsize"
      using resize_success by blast
    with True res E assms(2) show ?thesis
      by (simp add: elasticarray_shrink_def nsize_def)
  next
    case False
    with res have "m1 = m\<lparr>requests := Suc (requests m), errno := ENOMEM\<rparr>"
      using resize_fails by blast
    with False res E assms(2) show ?thesis
      by (simp add: elasticarray_shrink_def nsize_def)
  qed
  then obtain m' E' where sh: "elasticarray_shrink ea nrec reclen m = Some m'"
    and E': "objs m' ea = Some E'" and sz: "size_bytes E' = nsize"
    by blast
  have cnt: "unat (nsize div reclen) = unat (size_bytes E div reclen) - unat nrec"
    unfolding nsize_def using assms(2) by (rule shrink_target(1))
  then have "int (unat (nsize div reclen)) = max 0 (int (unat (size_bytes E div reclen)) - int (unat nrec))"
    by linarith
  moreover have "unat (size_bytes E div reclen) < unat nrec \<longrightarrow> nsize div reclen = 0"
  proof
    assume "unat (size_bytes E div reclen) < unat nrec"
    with cnt have "unat (nsize div reclen) = 0"
      by simp
    then show "nsize div reclen = 0"
      by (simp only: unat_eq_0)
  qed
  ultimately show ?thesis
    using E sh E' sz assms(2) by (simp add: elasticarray_getsize_def)
qed

theorem shrink_count_witness:
  "ea_inv (mem_one grant_all 6 8 [1, 2, 3, 4, 5, 6, 7, 8] :: 64 word mem) 1 \<and>
   (2 :: 64 word) \<noteq> 0 \<and>
   elasticarray_getsize 1 2 (mem_one grant_all 6 8 [1, 2, 3, 4, 5, 6, 7, 8] :: 64 word mem) = Some 3 \<and>
   Option.bind (elasticarray_shrink 1 1 2 (mem_one grant_all 6 8 [1, 2, 3, 4, 5, 6, 7, 8] :: 64 word mem))
     (elasticarray_getsize 1 2) = Some 2"
  using shrink_count [of "mem_one grant_all 6 8 [1, 2, 3, 4, 5, 6, 7, 8] :: 64 word mem" 1 2 1]
  by (simp add: mem_one_def ea_inv_def elasticarray_getsize_def elasticarray_shrink_def
      resize_def new_alloc_def SIZE_MAX_def)

text \<open>
  Claim C10. When the byte count \<open>nrec * reclen\<close> to remove does not fit in \<^verbatim>\<open>size_t\<close>,
  which is what the guard \<^verbatim>\<open>nrec > SIZE_MAX / reclen\<close> tests, \<^verbatim>\<open>elasticarray_shrink\<close>
  empties the array: the logical size becomes 0 and the storage is released. It asks
  nothing of the allocator, reports no error (\<^verbatim>\<open>errno\<close> is untouched) and removes no
  partial amount.
\<close>

theorem shrink_overflow_empties:
  fixes nrec reclen :: "'a::len word"
  assumes "ea_inv m ea" and "objs m ea = Some E" and "reclen \<noteq> 0"
    and "2 ^ LENGTH('a) \<le> unat nrec * unat reclen"
  shows "nrec > SIZE_MAX div reclen \<and>
     elasticarray_shrink ea nrec reclen m =
       Some (m\<lparr>blocks := (case buf E of None \<Rightarrow> blocks m | Some p \<Rightarrow> (blocks m)(p := None)),
               objs := (objs m)(ea \<mapsto> \<lparr>size_bytes = 0, alloc = 0, buf = None\<rparr>)\<rparr>)"
proof -
  from assms(3,4) have ov: "nrec > SIZE_MAX div reclen"
    by (simp add: overflow_check)
  with assms(1,2,3) show ?thesis
    by (simp add: elasticarray_shrink_def resize_zero)
qed

theorem shrink_overflow_empties_witness:
  "ea_inv (mem_one grant_all 6 8 [1, 2, 3, 4, 5, 6, 7, 8] :: 64 word mem) 1 \<and>
   (2 :: 64 word) \<noteq> 0 \<and>
   2 ^ LENGTH(64) \<le> unat (0x8000000000000000 :: 64 word) * unat (2 :: 64 word) \<and>
   elasticarray_shrink 1 0x8000000000000000 2 (mem_one grant_all 6 8 [1, 2, 3, 4, 5, 6, 7, 8] :: 64 word mem) =
     Some (mem_one grant_all 6 8 [1, 2, 3, 4, 5, 6, 7, 8]
             \<lparr>blocks := Map.empty, objs := [1 \<mapsto> \<lparr>size_bytes = 0, alloc = 0, buf = None\<rparr>]\<rparr>)"
  using shrink_overflow_empties [of "mem_one grant_all 6 8 [1, 2, 3, 4, 5, 6, 7, 8] :: 64 word mem" 1
      "\<lparr>size_bytes = 6, alloc = 8, buf = Some 2\<rparr>" 2 "0x8000000000000000"]
  by (simp add: mem_one_def ea_inv_def)

section \<open>Refused reallocations\<close>

lemma new_alloc_from_zero:
  assumes "nsize \<noteq> 0"
  shows "new_alloc 0 nsize = nsize"
  using assms by (simp add: new_alloc_def word_gt_0)

lemma elasticarray_resize_refused:
  fixes nrec reclen :: "'a::len word"
  assumes "ea_inv m ea" and "objs m ea = Some E" and "answers m (requests m) = Refuse"
    and "reclen \<noteq> 0" and "unat nrec * unat reclen < 2 ^ LENGTH('a)"
    and "reallocates (alloc E) (nrec * reclen)"
  shows "elasticarray_resize ea nrec reclen m =
           Some (- 1, m\<lparr>requests := Suc (requests m), errno := ENOMEM\<rparr>)"
proof -
  from assms(4,5) have "\<not> nrec > SIZE_MAX div reclen"
    by (simp add: overflow_check)
  moreover from assms(6)
  have "new_alloc (alloc E) (nrec * reclen) \<noteq> 0" and "new_alloc (alloc E) (nrec * reclen) \<noteq> alloc E"
    by (simp_all add: reallocates_def)
  with assms(2,1)
  have "resize ea (nrec * reclen) m = Some (- 1, m\<lparr>requests := Suc (requests m), errno := ENOMEM\<rparr>)"
    using assms(3) by (rule resize_refused)
  ultimately show ?thesis
    using assms(4) by (simp add: elasticarray_resize_def)
qed

lemma elasticarray_append_refused:
  fixes nrec reclen :: "'a::len word"
  assumes "ea_inv m ea" and "objs m ea = Some E" and "answers m (requests m) = Refuse"
    and "reclen \<noteq> 0" and "unat (size_bytes E) + unat nrec * unat reclen < 2 ^ LENGTH('a)"
    and "reallocates (alloc E) (size_bytes E + nrec * reclen)"
  shows "elasticarray_append ea src nrec reclen m =
           Some (- 1, m\<lparr>requests := Suc (requests m), errno := ENOMEM\<rparr>)"
proof -
  from assms(5) have "unat nrec * unat reclen < 2 ^ LENGTH('a)"
    by linarith
  with assms(4) have no: "\<not> nrec > SIZE_MAX div reclen"
    by (simp add: overflow_check)
  with assms(4) have m: "unat (nrec * reclen) = unat nrec * unat reclen"
    by (rule no_overflow_mult)
  have "unat (SIZE_MAX - size_bytes E) = unat (SIZE_MAX :: 'a word) - unat (size_bytes E)"
    by (rule unat_sub) (simp add: SIZE_MAX_def)
  then have "unat (SIZE_MAX - size_bytes E) = 2 ^ LENGTH('a) - 1 - unat (size_bytes E)"
    by (simp only: unat_SIZE_MAX)
  with m assms(5) have "unat (nrec * reclen) \<le> unat (SIZE_MAX - size_bytes E)"
    by linarith
  then have no2: "\<not> nrec * reclen > SIZE_MAX - size_bytes E"
    by (simp only: word_less_nat_alt not_less)
  from assms(6)
  have "new_alloc (alloc E) (size_bytes E + nrec * reclen) \<noteq> 0"
    and "new_alloc (alloc E) (size_bytes E + nrec * reclen) \<noteq> alloc E"
    by (simp_all add: reallocates_def)
  with assms(2,1)
  have "resize ea (size_bytes E + nrec * reclen) m =
          Some (- 1, m\<lparr>requests := Suc (requests m), errno := ENOMEM\<rparr>)"
    using assms(3) by (rule resize_refused)
  with no no2 assms(2,4) show ?thesis
    by (simp add: elasticarray_append_def)
qed

lemma elasticarray_truncate_refused:
  assumes "ea_inv m ea" and "objs m ea = Some E" and "answers m (requests m) = Refuse"
    and "size_bytes E \<noteq> 0" and "size_bytes E < alloc E"
  shows "elasticarray_truncate ea m =
           Some (- 1, m\<lparr>requests := Suc (requests m), errno := ENOMEM\<rparr>)"
  using assms
  by (auto simp: elasticarray_truncate_def ea_inv_def realloc_def malloc_def split: option.splits)

lemma elasticarray_shrink_refused:
  fixes nrec reclen :: "'a::len word"
  assumes "ea_inv m ea" and "objs m ea = Some E" and "answers m (requests m) = Refuse"
    and "reclen \<noteq> 0"
    and "nsize = (if nrec > SIZE_MAX div reclen \<or> nrec * reclen > size_bytes E
                  then 0 else size_bytes E - nrec * reclen)"
    and "reallocates (alloc E) nsize"
  shows "elasticarray_shrink ea nrec reclen m =
           Some (m\<lparr>requests := Suc (requests m), errno := ENOMEM,
                   objs := (objs m)(ea \<mapsto> E\<lparr>size_bytes := nsize\<rparr>)\<rparr>)"
    and "nsize \<le> alloc E"
proof -
  from assms(6)
  have "new_alloc (alloc E) nsize \<noteq> 0" and "new_alloc (alloc E) nsize \<noteq> alloc E"
    by (simp_all add: reallocates_def)
  with assms(2,1)
  have "resize ea nsize m = Some (- 1, m\<lparr>requests := Suc (requests m), errno := ENOMEM\<rparr>)"
    using assms(3) by (rule resize_refused)
  with assms(2,4,5) show "elasticarray_shrink ea nrec reclen m =
           Some (m\<lparr>requests := Suc (requests m), errno := ENOMEM,
                   objs := (objs m)(ea \<mapsto> E\<lparr>size_bytes := nsize\<rparr>)\<rparr>)"
    by (simp add: elasticarray_shrink_def)
  from assms(4) have "nsize \<le> size_bytes E"
    unfolding assms(5) by (rule shrink_target(2))
  moreover from assms(1,2) have "size_bytes E \<le> alloc E"
    by (simp add: ea_inv_def)
  ultimately show "nsize \<le> alloc E"
    by (rule order_trans)
qed

lemma elasticarray_init_refused:
  fixes nrec reclen :: "'a::len word"
  assumes "answers m (requests m) = Grant mv junk" and "answers m (Suc (requests m)) = Refuse"
    and "objs m (brk m) = None"
    and "reclen \<noteq> 0" and "unat nrec * unat reclen < 2 ^ LENGTH('a)" and "nrec * reclen \<noteq> 0"
  shows "elasticarray_init nrec reclen m =
           Some (None, m\<lparr>brk := Suc (brk m), requests := Suc (Suc (requests m)), errno := ENOMEM\<rparr>)"
proof -
  from assms(4,5) have no: "\<not> nrec > SIZE_MAX div reclen"
    by (simp add: overflow_check)
  have idem: "(objs m)(brk m := None) = objs m"
    using assms(3) by (rule fun_upd_idem)
  from assms(6) have "new_alloc 0 (nrec * reclen) = nrec * reclen"
    by (rule new_alloc_from_zero)
  with assms(1,2,4,6) no idem show ?thesis
    by (simp add: elasticarray_init_def malloc_struct_def elasticarray_resize_def resize_def
        realloc_def malloc_def elasticarray_free_def free_def free_struct_def)
qed

text \<open>
  Claim C2. Let the allocator refuse the next request, on a buffer that satisfies the
  invariants. If \<^verbatim>\<open>elasticarray_resize\<close> or \<^verbatim>\<open>elasticarray_append\<close> reaches the
  \<^verbatim>\<open>realloc\<close> of \<^verbatim>\<open>resize\<close>, or \<^verbatim>\<open>elasticarray_truncate\<close> reaches its own, the
  operation returns -1 and the memory is as before but for the count of requests and
  \<^verbatim>\<open>errno\<close>: size, allocation and storage are untouched. \<^verbatim>\<open>elasticarray_init\<close> whose
  wrapper was granted, at an address that was unused, and whose buffer is refused returns
  \<^verbatim>\<open>NULL\<close> and leaves no object behind. \<^verbatim>\<open>elasticarray_shrink\<close> returns normally: the size becomes the
  target, and the old allocation, which is at least as large as the target, is kept.
\<close>

theorem realloc_failure:
  fixes nrec reclen :: "'a::len word"
  assumes "ea_inv m ea" and "objs m ea = Some E" and "answers m (requests m) = Refuse"
    and "reclen \<noteq> 0"
  shows
    "(unat nrec * unat reclen < 2 ^ LENGTH('a) \<longrightarrow> reallocates (alloc E) (nrec * reclen) \<longrightarrow>
        elasticarray_resize ea nrec reclen m =
          Some (- 1, m\<lparr>requests := Suc (requests m), errno := ENOMEM\<rparr>)) \<and>
     (unat (size_bytes E) + unat nrec * unat reclen < 2 ^ LENGTH('a) \<longrightarrow>
        reallocates (alloc E) (size_bytes E + nrec * reclen) \<longrightarrow>
        elasticarray_append ea src nrec reclen m =
          Some (- 1, m\<lparr>requests := Suc (requests m), errno := ENOMEM\<rparr>)) \<and>
     (size_bytes E \<noteq> 0 \<longrightarrow> size_bytes E < alloc E \<longrightarrow>
        elasticarray_truncate ea m =
          Some (- 1, m\<lparr>requests := Suc (requests m), errno := ENOMEM\<rparr>)) \<and>
     (let nsize = (if nrec > SIZE_MAX div reclen \<or> nrec * reclen > size_bytes E
                   then 0 else size_bytes E - nrec * reclen)
      in reallocates (alloc E) nsize \<longrightarrow>
           elasticarray_shrink ea nrec reclen m =
             Some (m\<lparr>requests := Suc (requests m), errno := ENOMEM,
                     objs := (objs m)(ea \<mapsto> E\<lparr>size_bytes := nsize\<rparr>)\<rparr>) \<and>
           nsize \<le> alloc E) \<and>
     (answers m0 (requests m0) = Grant mv junk \<longrightarrow> answers m0 (Suc (requests m0)) = Refuse \<longrightarrow>
        objs m0 (brk m0) = None \<longrightarrow>
        unat nrec * unat reclen < 2 ^ LENGTH('a) \<longrightarrow> nrec * reclen \<noteq> 0 \<longrightarrow>
        elasticarray_init nrec reclen m0 =
          Some (None, m0\<lparr>brk := Suc (brk m0), requests := Suc (Suc (requests m0)), errno := ENOMEM\<rparr>))"
  using assms
  by (simp add: Let_def elasticarray_resize_refused elasticarray_append_refused
      elasticarray_truncate_refused elasticarray_shrink_refused elasticarray_init_refused
      del: One_nat_def)

theorem realloc_failure_witness:
  "ea_inv (mem_one refuse_all 6 40 (replicate 40 7) :: 64 word mem) 1 \<and>
   elasticarray_resize 1 50 2 (mem_one refuse_all 6 40 (replicate 40 7) :: 64 word mem) =
     Some (- 1, mem_one refuse_all 6 40 (replicate 40 7)\<lparr>requests := 1, errno := ENOMEM\<rparr>) \<and>
   elasticarray_append 1 (replicate 100 9) 50 2 (mem_one refuse_all 6 40 (replicate 40 7) :: 64 word mem) =
     Some (- 1, mem_one refuse_all 6 40 (replicate 40 7)\<lparr>requests := 1, errno := ENOMEM\<rparr>) \<and>
   elasticarray_truncate 1 (mem_one refuse_all 6 40 (replicate 40 7) :: 64 word mem) =
     Some (- 1, mem_one refuse_all 6 40 (replicate 40 7)\<lparr>requests := 1, errno := ENOMEM\<rparr>) \<and>
   elasticarray_shrink 1 2 2 (mem_one refuse_all 6 40 (replicate 40 7) :: 64 word mem) =
     Some (mem_one refuse_all 6 40 (replicate 40 7)
             \<lparr>requests := 1, errno := ENOMEM,
               objs := [1 \<mapsto> \<lparr>size_bytes = 2, alloc = 40, buf = Some 2\<rparr>]\<rparr>) \<and>
   elasticarray_init 10 8 (mem_empty grant_first :: 64 word mem) =
     Some (None, mem_empty grant_first\<lparr>brk := 2, requests := 2, errno := ENOMEM\<rparr>)"
  using realloc_failure [of "mem_one refuse_all 6 40 (replicate 40 7) :: 64 word mem" 1
      "\<lparr>size_bytes = 6, alloc = 40, buf = Some 2\<rparr>" 2 50 "replicate 100 9"
      "mem_empty grant_first" True "\<lambda>j. 0"]
    realloc_failure [of "mem_one refuse_all 6 40 (replicate 40 7) :: 64 word mem" 1
      "\<lparr>size_bytes = 6, alloc = 40, buf = Some 2\<rparr>" 2 2 "[]"
      "mem_empty grant_first" True "\<lambda>j. 0"]
    realloc_failure [of "mem_one refuse_all 6 40 (replicate 40 7) :: 64 word mem" 1
      "\<lparr>size_bytes = 6, alloc = 40, buf = Some 2\<rparr>" 8 10 "[]"
      "mem_empty grant_first" True "\<lambda>j. 0"]
  by (simp add: mem_one_def mem_empty_def ea_inv_def refuse_all_def grant_first_def
      reallocates_def new_alloc_def SIZE_MAX_def)

section \<open>Truncation\<close>

lemma truncate_total:
  assumes "ea_inv m ea"
  shows "\<exists>r m1. elasticarray_truncate ea m = Some (r, m1)"
  using assms
  by (auto simp: elasticarray_truncate_def realloc_def malloc_def free_def ea_inv_def
      split: option.splits grant.splits)

lemma truncate_fails:
  assumes "elasticarray_truncate ea m = Some (r, m1)" and "r \<noteq> 0"
  shows "r = - 1 \<and> m1 = m\<lparr>requests := Suc (requests m), errno := ENOMEM\<rparr> \<and>
         answers m (requests m) = Refuse"
  using assms
  by (auto simp: elasticarray_truncate_def realloc_def malloc_def free_def
      split: option.splits if_splits grant.splits prod.splits)

lemma truncate_success:
  assumes inv: "ea_inv m ea" and E: "objs m ea = Some E"
    and tr: "elasticarray_truncate ea m = Some (0, m1)"
  shows "\<exists>E1. objs m1 ea = Some E1 \<and> objs m1 = (objs m)(ea \<mapsto> E1) \<and>
           size_bytes E1 = size_bytes E \<and>
           alloc E1 = size_bytes E \<and>
           (size_bytes E = 0 \<longrightarrow> buf E1 = None \<and> (\<forall>p. buf E = Some p \<longrightarrow> blocks m1 p = None)) \<and>
           ea_inv m1 ea \<and> content m1 ea = content m ea"
proof (cases "size_bytes E = 0")
  case True
  with inv E tr show ?thesis
    by (auto simp: elasticarray_truncate_def free_def ea_inv_def content_def
        split: option.splits)
next
  case nz: False
  show ?thesis
  proof (cases "alloc E > size_bytes E")
    case True
    then have lt: "unat (size_bytes E) < unat (alloc E)"
      by (simp add: word_less_nat_alt)
    from inv E True obtain p bs where p: "buf E = Some p" and bs: "blocks m p = Some bs"
      and len: "length bs = unat (alloc E)"
      by (auto simp: ea_inv_def split: option.splits)
    from tr E nz True p bs obtain mv junk where g: "answers m (requests m) = Grant mv junk"
      by (auto simp: elasticarray_truncate_def realloc_def split: grant.splits)
    from lt len have new: "take (unat (size_bytes E)) bs @ map junk [length bs..<unat (size_bytes E)]
        = take (unat (size_bytes E)) bs"
      by simp
    from tr E nz True p bs g new lt len show ?thesis
      by (auto simp: elasticarray_truncate_def realloc_def ea_inv_def content_def)
  next
    case False
    with inv E have "alloc E = size_bytes E"
      by (auto simp: ea_inv_def)
    with inv E tr nz False show ?thesis
      by (auto simp: elasticarray_truncate_def)
  qed
qed





section \<open>Export\<close>

lemma export_refused:
  assumes "ea_inv m ea" and "objs m ea = Some E" and "answers m (requests m) = Refuse"
    and "size_bytes E \<noteq> 0" and "size_bytes E < alloc E"
  shows "elasticarray_export ea reclen m =
           Some ((- 1, None, None), m\<lparr>requests := Suc (requests m), errno := ENOMEM\<rparr>)"
  using elasticarray_truncate_refused [OF assms]
  by (simp add: elasticarray_export_def)

lemma export_total:
  assumes "ea_inv m ea" and "reclen \<noteq> 0"
  shows "\<exists>res m'. elasticarray_export ea reclen m = Some (res, m')"
proof -
  from assms(1) obtain E where E: "objs m ea = Some E"
    by (auto simp: ea_inv_def split: option.splits)
  from assms(1) obtain r m1 where tr: "elasticarray_truncate ea m = Some (r, m1)"
    using truncate_total by blast
  show ?thesis
  proof (cases "r = 0")
    case True
    with tr assms(1) E obtain E1 where "objs m1 ea = Some E1"
      using truncate_success by blast
    with True tr assms(2) show ?thesis
      by (simp add: elasticarray_export_def elasticarray_getsize_def free_struct_def)
  next
    case False
    with tr show ?thesis
      by (simp add: elasticarray_export_def)
  qed
qed

lemma export_success:
  assumes inv: "ea_inv m ea" and E: "objs m ea = Some E" and r: "reclen \<noteq> 0"
    and ex: "elasticarray_export ea reclen m = Some ((0, ob, on), m')"
  shows "\<exists>m1 E1. elasticarray_truncate ea m = Some (0, m1) \<and> objs m1 ea = Some E1 \<and>
           ob = Some (buf E1) \<and> on = elasticarray_getsize ea reclen m \<and>
           m' = m1\<lparr>objs := (objs m1)(ea := None)\<rparr> \<and>
           (case buf E1 of None \<Rightarrow> size_bytes E = 0
            | Some p \<Rightarrow> blocks m' p = Some (content m ea) \<and> length (content m ea) = unat (size_bytes E))"
proof -
  from inv obtain r0 m1 where tr: "elasticarray_truncate ea m = Some (r0, m1)"
    using truncate_total by blast
  with ex have r0: "r0 = 0"
    by (auto simp: elasticarray_export_def split: if_splits)
  with tr inv E obtain E1 where E1: "objs m1 ea = Some E1" and sz: "size_bytes E1 = size_bytes E"
    and al: "alloc E1 = size_bytes E" and inv1: "ea_inv m1 ea" and c: "content m1 ea = content m ea"
    using truncate_success by blast
  from ex tr r0 E1 r sz E have out: "ob = Some (buf E1)" "on = elasticarray_getsize ea reclen m"
    "m' = m1\<lparr>objs := (objs m1)(ea := None)\<rparr>"
    by (auto simp: elasticarray_export_def elasticarray_getsize_def free_struct_def)
  have "case buf E1 of None \<Rightarrow> size_bytes E = 0
        | Some p \<Rightarrow> blocks m' p = Some (content m ea) \<and> length (content m ea) = unat (size_bytes E)"
  proof (cases "buf E1")
    case None
    with inv1 E1 al show ?thesis
      by (simp add: ea_inv_def)
  next
    case (Some p)
    with inv1 E1 obtain bs where bs: "blocks m1 p = Some bs" and len: "length bs = unat (alloc E1)"
      by (auto simp: ea_inv_def split: option.splits)
    with E1 Some sz al have "content m1 ea = bs"
      by (simp add: content_def)
    with c bs len al out(3) Some show ?thesis
      by simp
  qed
  with tr r0 E1 out show ?thesis
    by simp
qed

lemma export_of_truncate:
  assumes inv: "ea_inv m ea" and E: "objs m ea = Some E" and r: "reclen \<noteq> 0"
  shows "\<exists>r1 m1. elasticarray_truncate ea m = Some (r1, m1) \<and>
           (r1 \<noteq> 0 \<longrightarrow>
              m1 = m\<lparr>requests := Suc (requests m), errno := ENOMEM\<rparr> \<and>
              elasticarray_export ea reclen m = Some ((- 1, None, None), m1)) \<and>
           (r1 = 0 \<longrightarrow>
              (\<exists>E1. objs m1 ea = Some E1 \<and>
                 elasticarray_export ea reclen m =
                   Some ((0, Some (buf E1), elasticarray_getsize ea reclen m),
                         m1\<lparr>objs := (objs m1)(ea := None)\<rparr>)))"
proof -
  from inv obtain r1 m1 where tr: "elasticarray_truncate ea m = Some (r1, m1)"
    using truncate_total by blast
  have "r1 \<noteq> 0 \<longrightarrow>
              m1 = m\<lparr>requests := Suc (requests m), errno := ENOMEM\<rparr> \<and>
              elasticarray_export ea reclen m = Some ((- 1, None, None), m1)"
    using tr truncate_fails [OF tr] by (simp add: elasticarray_export_def)
  moreover have "r1 = 0 \<longrightarrow>
              (\<exists>E1. objs m1 ea = Some E1 \<and>
                 elasticarray_export ea reclen m =
                   Some ((0, Some (buf E1), elasticarray_getsize ea reclen m),
                         m1\<lparr>objs := (objs m1)(ea := None)\<rparr>))"
  proof
    assume z: "r1 = 0"
    with tr inv E obtain E1 where E1: "objs m1 ea = Some E1" and sz: "size_bytes E1 = size_bytes E"
      using truncate_success by blast
    with tr z r E have "elasticarray_export ea reclen m =
                   Some ((0, Some (buf E1), elasticarray_getsize ea reclen m),
                         m1\<lparr>objs := (objs m1)(ea := None)\<rparr>)"
      by (simp add: elasticarray_export_def elasticarray_getsize_def free_struct_def)
    with E1 show "\<exists>E1. objs m1 ea = Some E1 \<and>
                 elasticarray_export ea reclen m =
                   Some ((0, Some (buf E1), elasticarray_getsize ea reclen m),
                         m1\<lparr>objs := (objs m1)(ea := None)\<rparr>)"
      by simp
  qed
  ultimately show ?thesis
    using tr by simp
qed

lemma export_empty:
  assumes inv: "ea_inv m ea" and E: "objs m ea = Some E" and r: "reclen \<noteq> 0"
    and z: "size_bytes E = 0"
  shows "\<exists>m2. elasticarray_export ea reclen m = Some ((0, Some None, Some 0), m2) \<and>
           objs m2 = (objs m)(ea := None) \<and> (\<forall>p. buf E = Some p \<longrightarrow> blocks m2 p = None) \<and>
           requests m2 = requests m"
  using assms
  by (auto simp: elasticarray_export_def elasticarray_truncate_def free_def ea_inv_def
      elasticarray_getsize_def free_struct_def split: option.splits)

lemma export_exact:
  assumes inv: "ea_inv m ea" and E: "objs m ea = Some E" and r: "reclen \<noteq> 0"
    and nz: "size_bytes E \<noteq> 0" and fit: "alloc E = size_bytes E"
  shows "elasticarray_export ea reclen m =
           Some ((0, Some (buf E), Some (size_bytes E div reclen)), m\<lparr>objs := (objs m)(ea := None)\<rparr>)"
  using assms
  by (simp add: elasticarray_export_def elasticarray_truncate_def elasticarray_getsize_def
      free_struct_def)

lemma export_granted:
  assumes inv: "ea_inv m ea" and E: "objs m ea = Some E" and r: "reclen \<noteq> 0"
    and nz: "size_bytes E \<noteq> 0" and lt: "size_bytes E < alloc E"
    and g: "answers m (requests m) = Grant mv junk"
  shows "\<exists>p m2. buf E = Some p \<and>
           elasticarray_export ea reclen m =
             Some ((0, Some (Some (if mv then brk m else p)), Some (size_bytes E div reclen)), m2) \<and>
           blocks m2 (if mv then brk m else p) = Some (content m ea) \<and>
           objs m2 = (objs m)(ea := None)"
proof -
  from lt have l: "unat (size_bytes E) < unat (alloc E)"
    by (simp add: word_less_nat_alt)
  from inv E lt obtain p bs where p: "buf E = Some p" and bs: "blocks m p = Some bs"
    and len: "length bs = unat (alloc E)"
    by (auto simp: ea_inv_def split: option.splits)
  from l len have new: "take (unat (size_bytes E)) bs @ map junk [length bs..<unat (size_bytes E)]
        = take (unat (size_bytes E)) bs"
    by simp
  from E r nz lt g p bs new show ?thesis
    by (simp add: elasticarray_export_def elasticarray_truncate_def realloc_def
        elasticarray_getsize_def free_struct_def content_def)
qed

text \<open>
  Claim C7. On a buffer that satisfies the invariants, with a positive record length,
  \<^verbatim>\<open>elasticarray_export\<close> first truncates, and its result follows that of the truncation:
  when \<^verbatim>\<open>elasticarray_truncate\<close> fails, the export returns -1, writes neither output and
  leaves the memory as the failed truncation left it, which is as it was but for the
  allocator's count of requests and \<^verbatim>\<open>errno\<close>; when \<^verbatim>\<open>elasticarray_truncate\<close>
  succeeds, the export returns 0, reports the \<^verbatim>\<open>buf\<close> field of the truncated array and
  \<^verbatim>\<open>elasticarray_getsize\<close> of the buffer before the call, and releases the wrapper and
  nothing else. Case by case:

    \<^item> an empty buffer is exported with success, as \<^verbatim>\<open>NULL\<close> and the count 0, its storage
      freed, without a request to the allocator;

    \<^item> a non-empty buffer with no spare space is exported with success, as its own storage,
      without a request to the allocator, the memory changing by the wrapper only;

    \<^item> a non-empty buffer with spare space, when the allocator grants the \<^verbatim>\<open>realloc\<close>,
      is exported with success, as the reallocated block, which holds exactly the content;

    \<^item> the same buffer, when the allocator refuses the \<^verbatim>\<open>realloc\<close>, is not exported:
      the result is -1, no output is written, and the buffer is as it was.

  The export always returns. Whenever it returns 0, the pointer it reports is the storage
  of the truncated array, not a copy: the block behind it is live in the final memory and
  holds exactly the content of the buffer before the call.
\<close>

theorem export_transfers:
  fixes reclen :: "'a::len word"
  assumes "ea_inv m ea" and "objs m ea = Some E" and "reclen \<noteq> 0"
  shows
    "(\<exists>r1 m1. elasticarray_truncate ea m = Some (r1, m1) \<and>
        (r1 \<noteq> 0 \<longrightarrow>
           m1 = m\<lparr>requests := Suc (requests m), errno := ENOMEM\<rparr> \<and>
           elasticarray_export ea reclen m = Some ((- 1, None, None), m1)) \<and>
        (r1 = 0 \<longrightarrow>
           (\<exists>E1. objs m1 ea = Some E1 \<and>
              elasticarray_export ea reclen m =
                Some ((0, Some (buf E1), elasticarray_getsize ea reclen m),
                      m1\<lparr>objs := (objs m1)(ea := None)\<rparr>)))) \<and>
     (size_bytes E = 0 \<longrightarrow>
        (\<exists>m2. elasticarray_export ea reclen m = Some ((0, Some None, Some 0), m2) \<and>
           objs m2 = (objs m)(ea := None) \<and> (\<forall>p. buf E = Some p \<longrightarrow> blocks m2 p = None) \<and>
           requests m2 = requests m)) \<and>
     (size_bytes E \<noteq> 0 \<longrightarrow> alloc E = size_bytes E \<longrightarrow>
        elasticarray_export ea reclen m =
          Some ((0, Some (buf E), Some (size_bytes E div reclen)),
                m\<lparr>objs := (objs m)(ea := None)\<rparr>)) \<and>
     (size_bytes E \<noteq> 0 \<longrightarrow> size_bytes E < alloc E \<longrightarrow> answers m (requests m) = Grant mv junk \<longrightarrow>
        (\<exists>p m2. buf E = Some p \<and>
           elasticarray_export ea reclen m =
             Some ((0, Some (Some (if mv then brk m else p)), Some (size_bytes E div reclen)), m2) \<and>
           blocks m2 (if mv then brk m else p) = Some (content m ea) \<and>
           objs m2 = (objs m)(ea := None))) \<and>
     (answers m (requests m) = Refuse \<longrightarrow> size_bytes E \<noteq> 0 \<longrightarrow> size_bytes E < alloc E \<longrightarrow>
        elasticarray_export ea reclen m =
          Some ((- 1, None, None), m\<lparr>requests := Suc (requests m), errno := ENOMEM\<rparr>)) \<and>
     elasticarray_export ea reclen m \<noteq> None \<and>
     (elasticarray_export ea reclen m = Some ((0, ob, on), m') \<longrightarrow>
        (\<exists>m1 E1. elasticarray_truncate ea m = Some (0, m1) \<and> objs m1 ea = Some E1 \<and>
           ob = Some (buf E1) \<and> on = elasticarray_getsize ea reclen m \<and>
           m' = m1\<lparr>objs := (objs m1)(ea := None)\<rparr> \<and>
           (case buf E1 of None \<Rightarrow> size_bytes E = 0
            | Some p \<Rightarrow> blocks m' p = Some (content m ea) \<and>
                length (content m ea) = unat (size_bytes E))))"
proof (intro conjI impI)
  from assms show "\<exists>r1 m1. elasticarray_truncate ea m = Some (r1, m1) \<and>
        (r1 \<noteq> 0 \<longrightarrow>
           m1 = m\<lparr>requests := Suc (requests m), errno := ENOMEM\<rparr> \<and>
           elasticarray_export ea reclen m = Some ((- 1, None, None), m1)) \<and>
        (r1 = 0 \<longrightarrow>
           (\<exists>E1. objs m1 ea = Some E1 \<and>
              elasticarray_export ea reclen m =
                Some ((0, Some (buf E1), elasticarray_getsize ea reclen m),
                      m1\<lparr>objs := (objs m1)(ea := None)\<rparr>)))"
    by (rule export_of_truncate)
next
  assume "size_bytes E = 0"
  with assms show "\<exists>m2. elasticarray_export ea reclen m = Some ((0, Some None, Some 0), m2) \<and>
           objs m2 = (objs m)(ea := None) \<and> (\<forall>p. buf E = Some p \<longrightarrow> blocks m2 p = None) \<and>
           requests m2 = requests m"
    by (rule export_empty)
next
  assume "size_bytes E \<noteq> 0" and "alloc E = size_bytes E"
  with assms show "elasticarray_export ea reclen m =
          Some ((0, Some (buf E), Some (size_bytes E div reclen)),
                m\<lparr>objs := (objs m)(ea := None)\<rparr>)"
    by (rule export_exact)
next
  assume "size_bytes E \<noteq> 0" and "size_bytes E < alloc E" and "answers m (requests m) = Grant mv junk"
  with assms show "\<exists>p m2. buf E = Some p \<and>
           elasticarray_export ea reclen m =
             Some ((0, Some (Some (if mv then brk m else p)), Some (size_bytes E div reclen)), m2) \<and>
           blocks m2 (if mv then brk m else p) = Some (content m ea) \<and>
           objs m2 = (objs m)(ea := None)"
    by (rule export_granted)
next
  assume "answers m (requests m) = Refuse" and "size_bytes E \<noteq> 0" and "size_bytes E < alloc E"
  with assms(1,2) show "elasticarray_export ea reclen m =
          Some ((- 1, None, None), m\<lparr>requests := Suc (requests m), errno := ENOMEM\<rparr>)"
    by (rule export_refused)
next
  from assms(1,3) show "elasticarray_export ea reclen m \<noteq> None"
    using export_total by fastforce
next
  assume "elasticarray_export ea reclen m = Some ((0, ob, on), m')"
  with assms show "\<exists>m1 E1. elasticarray_truncate ea m = Some (0, m1) \<and> objs m1 ea = Some E1 \<and>
           ob = Some (buf E1) \<and> on = elasticarray_getsize ea reclen m \<and>
           m' = m1\<lparr>objs := (objs m1)(ea := None)\<rparr> \<and>
           (case buf E1 of None \<Rightarrow> size_bytes E = 0
            | Some p \<Rightarrow> blocks m' p = Some (content m ea) \<and>
                length (content m ea) = unat (size_bytes E))"
    by (rule export_success)
qed

theorem export_transfers_witness:
  "ea_inv (mem_one grant_all 6 8 [1, 2, 3, 4, 5, 6, 7, 8] :: 64 word mem) 1 \<and>
   (2 :: 64 word) \<noteq> 0 \<and>
   elasticarray_getsize 1 2 (mem_one grant_all 6 8 [1, 2, 3, 4, 5, 6, 7, 8] :: 64 word mem) = Some 3 \<and>
   content (mem_one grant_all 6 8 [1, 2, 3, 4, 5, 6, 7, 8] :: 64 word mem) 1 = [1, 2, 3, 4, 5, 6] \<and>
   elasticarray_export 1 2 (mem_one grant_all 6 8 [1, 2, 3, 4, 5, 6, 7, 8] :: 64 word mem) =
     Some ((0, Some (Some 3), Some 3),
           mem_one grant_all 6 8 [1, 2, 3, 4, 5, 6, 7, 8]
             \<lparr>objs := Map.empty, blocks := [3 \<mapsto> [1, 2, 3, 4, 5, 6]], brk := 4, requests := 1\<rparr>) \<and>
   ea_inv (mem_one refuse_all 6 8 [1, 2, 3, 4, 5, 6, 7, 8] :: 64 word mem) 1 \<and>
   elasticarray_export 1 2 (mem_one refuse_all 6 8 [1, 2, 3, 4, 5, 6, 7, 8] :: 64 word mem) =
     Some ((- 1, None, None),
           mem_one refuse_all 6 8 [1, 2, 3, 4, 5, 6, 7, 8]\<lparr>requests := 1, errno := ENOMEM\<rparr>) \<and>
   ea_inv (mem_one refuse_all 8 8 [1, 2, 3, 4, 5, 6, 7, 8] :: 64 word mem) 1 \<and>
   elasticarray_export 1 2 (mem_one refuse_all 8 8 [1, 2, 3, 4, 5, 6, 7, 8] :: 64 word mem) =
     Some ((0, Some (Some 2), Some 4),
           mem_one refuse_all 8 8 [1, 2, 3, 4, 5, 6, 7, 8]\<lparr>objs := Map.empty\<rparr>) \<and>
   ea_inv (mem_one refuse_all 0 8 [1, 2, 3, 4, 5, 6, 7, 8] :: 64 word mem) 1 \<and>
   elasticarray_export 1 2 (mem_one refuse_all 0 8 [1, 2, 3, 4, 5, 6, 7, 8] :: 64 word mem) =
     Some ((0, Some None, Some 0),
           mem_one refuse_all 0 8 [1, 2, 3, 4, 5, 6, 7, 8]\<lparr>blocks := Map.empty, objs := Map.empty\<rparr>)"
proof -
  let ?G = "mem_one grant_all 6 8 [1, 2, 3, 4, 5, 6, 7, 8] :: 64 word mem"
  let ?R = "mem_one refuse_all 6 8 [1, 2, 3, 4, 5, 6, 7, 8] :: 64 word mem"
  let ?X = "mem_one refuse_all 8 8 [1, 2, 3, 4, 5, 6, 7, 8] :: 64 word mem"
  let ?Z = "mem_one refuse_all 0 8 [1, 2, 3, 4, 5, 6, 7, 8] :: 64 word mem"
  have g: "elasticarray_export 1 2 ?G =
     Some ((0, Some (Some 3), Some 3),
           ?G\<lparr>objs := Map.empty, blocks := [3 \<mapsto> [1, 2, 3, 4, 5, 6]], brk := 4, requests := 1\<rparr>)"
    by (simp add: mem_one_def grant_all_def elasticarray_export_def elasticarray_truncate_def
        realloc_def elasticarray_getsize_def free_struct_def)
  have z: "elasticarray_export 1 2 ?Z =
     Some ((0, Some None, Some 0), ?Z\<lparr>blocks := Map.empty, objs := Map.empty\<rparr>)"
    by (simp add: mem_one_def elasticarray_export_def elasticarray_truncate_def free_def
        elasticarray_getsize_def free_struct_def)
  have c: "content ?G 1 = [1, 2, 3, 4, 5, 6]"
    by (simp add: content_def mem_one_def)
  have two: "(2 :: 64 word) \<noteq> 0"
    by simp
  have invR: "ea_inv ?R 1" and invX: "ea_inv ?X 1" and invZ: "ea_inv ?Z 1" and invG: "ea_inv ?G 1"
    by (simp_all add: mem_one_def ea_inv_def)
  have ER: "objs ?R 1 = Some \<lparr>size_bytes = 6, alloc = 8, buf = Some 2\<rparr>"
    and EX: "objs ?X 1 = Some \<lparr>size_bytes = 8, alloc = 8, buf = Some 2\<rparr>"
    by (simp_all add: mem_one_def)
  from export_transfers [OF invR ER two, THEN conjunct2, THEN conjunct2, THEN conjunct2,
      THEN conjunct2, THEN conjunct1]
  have r: "elasticarray_export 1 2 ?R = Some ((- 1, None, None), ?R\<lparr>requests := 1, errno := ENOMEM\<rparr>)"
    by (simp add: mem_one_def refuse_all_def)
  from export_transfers [OF invX EX two, THEN conjunct2, THEN conjunct2, THEN conjunct1]
  have x: "elasticarray_export 1 2 ?X = Some ((0, Some (Some 2), Some 4), ?X\<lparr>objs := Map.empty\<rparr>)"
    by (simp add: mem_one_def)
  have gs: "elasticarray_getsize 1 2 ?G = Some 3"
    by (simp add: mem_one_def elasticarray_getsize_def)
  from two invG invR invX invZ gs c g r x z show ?thesis
    by blast
qed

section \<open>Iteration\<close>

lemma spec_iterate_length:
  "length (fst (spec_iterate ea len fn js m)) = length js"
  by (induction js arbitrary: m) (simp_all add: Let_def)

lemma spec_iterate_offsets:
  "map snd (fst (spec_iterate ea len fn js m)) = map (\<lambda>i. i * len) js"
  by (induction js arbitrary: m) (simp_all add: Let_def)

lemma spec_iterate_fold:
  "snd (spec_iterate ea len fn js m) = fold fn (fst (spec_iterate ea len fn js m)) m"
  by (induction js arbitrary: m) (simp_all add: Let_def)

lemma spec_iterate_base:
  "j < length js \<Longrightarrow>
     fst (fst (spec_iterate ea len fn js m) ! j) =
       storage (fold fn (take j (fst (spec_iterate ea len fn js m))) m) ea"
proof (induction js arbitrary: m j)
  case Nil
  then show ?case
    by simp
next
  case (Cons i js)
  show ?case
  proof (cases j)
    case 0
    then show ?thesis
      by (simp add: Let_def)
  next
    case (Suc k)
    with Cons.prems have "k < length js"
      by simp
    then have "fst (fst (spec_iterate ea len fn js (fn (storage m ea, i * len) m)) ! k) =
       storage (fold fn (take k (fst (spec_iterate ea len fn js (fn (storage m ea, i * len) m))))
                  (fn (storage m ea, i * len) m)) ea"
      by (rule Cons.IH)
    with Suc show ?thesis
      by (simp add: Let_def)
  qed
qed

lemma spec_iterate_fixed:
  assumes "\<forall>p m. storage (fn p m) ea = storage m ea"
  shows "fst (spec_iterate ea len fn js m) = map (\<lambda>i. (storage m ea, i * len)) js"
  using assms by (induction js arbitrary: m) (simp_all add: Let_def)

lemma iter_loop_refines:
  fixes reclen :: "'a::len word"
  shows "reclen \<noteq> 0 \<Longrightarrow>
         \<forall>p m. elasticarray_getsize ea reclen (fp p m) = elasticarray_getsize ea reclen m \<Longrightarrow>
         elasticarray_getsize ea reclen m = Some n \<Longrightarrow>
         iter_loop ea reclen fp i calls m =
           Some (calls @ fst (spec_iterate ea (unat reclen) fp [unat i..<unat n] m),
                 snd (spec_iterate ea (unat reclen) fp [unat i..<unat n] m))"
proof (induction ea reclen fp i calls m rule: iter_loop.induct)
  case (1 ea reclen fp i calls m)
  note gs = "1.prems"(3)
  show ?case
  proof (cases "i < n")
    case False
    then have e: "[unat i..<unat n] = []"
      by (simp add: word_less_nat_alt)
    from gs False show ?thesis
      by (subst iter_loop.simps) (simp add: e)
  next
    case True
    from gs obtain E where E: "objs m ea = Some E" and n: "n = size_bytes E div reclen"
      by (auto simp: elasticarray_getsize_def split: option.splits if_splits)
    let ?p = "(storage m ea, unat i * unat reclen)"
    from True n "1.prems"(1) have "unat (reclen * i) = unat i * unat reclen"
      using record_offset by blast
    with E have get: "elasticarray_get ea reclen i m = Some ?p"
      by (simp add: elasticarray_get_def storage_def)
    from "1.prems"(2) gs have "elasticarray_getsize ea reclen (fp ?p m) = Some n"
      by simp
    with gs True get "1.prems"(1,2)
    have ih: "iter_loop ea reclen fp (i + 1) (calls @ [?p]) (fp ?p m) =
        Some ((calls @ [?p]) @ fst (spec_iterate ea (unat reclen) fp [unat (i + 1)..<unat n] (fp ?p m)),
              snd (spec_iterate ea (unat reclen) fp [unat (i + 1)..<unat n] (fp ?p m)))"
      by (rule "1.IH")
    from True have suc: "unat (i + 1) = Suc (unat i)"
      by (rule unat_succ)
    from True have "unat i < unat n"
      by (simp add: word_less_nat_alt)
    then have upt: "[unat i..<unat n] = unat i # [Suc (unat i)..<unat n]"
      by (rule upt_conv_Cons)
    from gs True get ih show ?thesis
      by (subst iter_loop.simps) (simp add: suc upt Let_def)
  qed
qed

lemma trim_keeps_count:
  "elasticarray_getsize ea reclen (trim ea p m) = elasticarray_getsize ea reclen m"
  by (auto simp: trim_def elasticarray_truncate_def elasticarray_getsize_def realloc_def
      malloc_def free_def split: option.splits if_splits grant.splits prod.splits)

lemma zero_first_keeps_count:
  "elasticarray_getsize ea reclen (zero_first p m) = elasticarray_getsize ea reclen m"
  by (simp add: zero_first_def elasticarray_getsize_def split: prod.splits option.splits)

text \<open>
  Claim C9, as stated, has the callback run over the record count as of the start of the
  call. The loop of \<^verbatim>\<open>elasticarray_iter\<close> evaluates \<^verbatim>\<open>elasticarray_getsize\<close> before every
  call, so a callback that changes the array changes the records visited: on an array of
  four one-byte records, a callback that removes the last record is called for the records
  0 and 1 only.
\<close>

theorem iter_rereads_size:
  "elasticarray_getsize 1 1 (mem_one grant_all 4 4 [1, 2, 3, 4] :: 64 word mem) = Some 4 \<and>
   map_option fst (elasticarray_iter 1 1 (drop_last 1 1) (mem_one grant_all 4 4 [1, 2, 3, 4] :: 64 word mem)) =
     Some [(Some 2, 0), (Some 2, 1)] \<and>
   map_option fst (elasticarray_iter 1 1 (drop_last 1 1) (mem_one grant_all 4 4 [1, 2, 3, 4] :: 64 word mem)) \<noteq>
     Some [(Some 2, 0), (Some 2, 1), (Some 2, 2), (Some 2, 3)]"
  by (simp add: elasticarray_iter_def iter_loop.simps elasticarray_getsize_def elasticarray_get_def
      drop_last_def elasticarray_shrink_def resize_def new_alloc_def SIZE_MAX_def mem_one_def)

text \<open>
  Claim C9, amended. Take a positive record length and a callback that never changes the
  record count of the array (it may change the bytes of the records, the allocated size,
  the place of the storage, and the rest of the memory). Then \<^verbatim>\<open>elasticarray_iter\<close>
  returns, and what it does is \<open>spec_iterate\<close> over the indices \<open>0, 1, ..., n - 1\<close>, where
  \<open>n\<close> is \<^verbatim>\<open>elasticarray_getsize\<close> at the start of the call: the callback is called exactly
  \<open>n\<close> times; the call number \<open>j\<close> gets the byte offset \<open>j * reclen\<close> into the storage of the
  array as it is after the calls before it; and the final memory is the result of these
  calls in this order. When the callback also leaves the storage pointer alone, every
  call gets the pointer \<open>buf + j * reclen\<close> of the storage at the start.
\<close>

theorem iter_visits:
  fixes reclen :: "'a::len word"
  assumes "objs m ea = Some E" and "reclen \<noteq> 0"
    and "\<forall>p m. elasticarray_getsize ea reclen (fp p m) = elasticarray_getsize ea reclen m"
  shows "elasticarray_getsize ea reclen m = Some (size_bytes E div reclen) \<and>
     (\<exists>calls m'. elasticarray_iter ea reclen fp m = Some (calls, m') \<and>
        (calls, m') = spec_iterate ea (unat reclen) fp [0..<unat (size_bytes E div reclen)] m \<and>
        length calls = unat (size_bytes E div reclen) \<and>
        map snd calls = map (\<lambda>j. j * unat reclen) [0..<unat (size_bytes E div reclen)] \<and>
        (\<forall>j < unat (size_bytes E div reclen).
           fst (calls ! j) = storage (fold fp (take j calls) m) ea) \<and>
        m' = fold fp calls m \<and>
        ((\<forall>p m. storage (fp p m) ea = storage m ea) \<longrightarrow>
           calls = map (\<lambda>j. (buf E, j * unat reclen)) [0..<unat (size_bytes E div reclen)]))"
proof -
  let ?js = "[0..<unat (size_bytes E div reclen)]"
  let ?r = "spec_iterate ea (unat reclen) fp ?js m"
  from assms(1,2) have gs: "elasticarray_getsize ea reclen m = Some (size_bytes E div reclen)"
    by (simp add: elasticarray_getsize_def)
  from assms(2,3) gs
  have "iter_loop ea reclen fp 0 [] m =
      Some ([] @ fst (spec_iterate ea (unat reclen) fp [unat (0 :: 'a word)..<unat (size_bytes E div reclen)] m),
            snd (spec_iterate ea (unat reclen) fp [unat (0 :: 'a word)..<unat (size_bytes E div reclen)] m))"
    by (rule iter_loop_refines)
  then have run: "elasticarray_iter ea reclen fp m = Some (fst ?r, snd ?r)"
    by (simp add: elasticarray_iter_def)
  have len: "length (fst ?r) = unat (size_bytes E div reclen)"
    by (simp add: spec_iterate_length)
  have off: "map snd (fst ?r) = map (\<lambda>j. j * unat reclen) ?js"
    by (rule spec_iterate_offsets)
  have base: "\<forall>j < unat (size_bytes E div reclen).
      fst (fst ?r ! j) = storage (fold fp (take j (fst ?r)) m) ea"
    by (simp add: spec_iterate_base)
  have fin: "snd ?r = fold fp (fst ?r) m"
    by (rule spec_iterate_fold)
  have fixed: "(\<forall>p m. storage (fp p m) ea = storage m ea) \<longrightarrow>
      fst ?r = map (\<lambda>j. (buf E, j * unat reclen)) ?js"
  proof
    assume "\<forall>p m. storage (fp p m) ea = storage m ea"
    then have "fst ?r = map (\<lambda>j. (storage m ea, j * unat reclen)) ?js"
      by (rule spec_iterate_fixed)
    with assms(1) show "fst ?r = map (\<lambda>j. (buf E, j * unat reclen)) ?js"
      by (simp add: storage_def)
  qed
  have "(fst ?r, snd ?r) = ?r"
    by simp
  with run len off base fin fixed have "\<exists>calls m'. elasticarray_iter ea reclen fp m = Some (calls, m') \<and>
        (calls, m') = ?r \<and>
        length calls = unat (size_bytes E div reclen) \<and>
        map snd calls = map (\<lambda>j. j * unat reclen) ?js \<and>
        (\<forall>j < unat (size_bytes E div reclen).
           fst (calls ! j) = storage (fold fp (take j calls) m) ea) \<and>
        m' = fold fp calls m \<and>
        ((\<forall>p m. storage (fp p m) ea = storage m ea) \<longrightarrow>
           calls = map (\<lambda>j. (buf E, j * unat reclen)) ?js)"
    by blast
  with gs show ?thesis
    by simp
qed

theorem iter_visits_witness:
  "objs (mem_one grant_all 6 8 [1, 2, 3, 4, 5, 6, 7, 8] :: 64 word mem) 1 =
     Some \<lparr>size_bytes = 6, alloc = 8, buf = Some 2\<rparr> \<and>
   (2 :: 64 word) \<noteq> 0 \<and>
   elasticarray_getsize 1 2 (mem_one grant_all 6 8 [1, 2, 3, 4, 5, 6, 7, 8] :: 64 word mem) = Some 3 \<and>
   elasticarray_iter 1 2 zero_first (mem_one grant_all 6 8 [1, 2, 3, 4, 5, 6, 7, 8] :: 64 word mem) =
     Some ([(Some 2, 0), (Some 2, 2), (Some 2, 4)],
           mem_one grant_all 6 8 [1, 2, 3, 4, 5, 6, 7, 8]\<lparr>blocks := [2 \<mapsto> [0, 2, 0, 4, 0, 6, 7, 8]]\<rparr>) \<and>
   elasticarray_iter 1 2 (trim 1) (mem_one grant_all 6 8 [1, 2, 3, 4, 5, 6, 7, 8] :: 64 word mem) =
     Some ([(Some 2, 0), (Some 3, 2), (Some 3, 4)],
           mem_one grant_all 6 8 [1, 2, 3, 4, 5, 6, 7, 8]
             \<lparr>objs := [1 \<mapsto> \<lparr>size_bytes = 6, alloc = 6, buf = Some 3\<rparr>],
               blocks := [3 \<mapsto> [1, 2, 3, 4, 5, 6]], brk := 4, requests := 1\<rparr>)"
proof -
  let ?M = "mem_one grant_all 6 8 [1, 2, 3, 4, 5, 6, 7, 8] :: 64 word mem"
  have E: "objs ?M 1 = Some \<lparr>size_bytes = 6, alloc = 8, buf = Some 2\<rparr>"
    by (simp add: mem_one_def)
  have two: "(2 :: 64 word) \<noteq> 0"
    by simp
  have n: "[0..<unat (size_bytes \<lparr>size_bytes = 6 :: 64 word, alloc = 8 :: 64 word, buf = Some 2\<rparr> div 2)]
      = [0, 1, 2]"
    by (simp add: upt_0_3)
  have kz: "\<forall>p (m :: 64 word mem). elasticarray_getsize 1 2 (zero_first p m) = elasticarray_getsize 1 2 m"
    by (simp add: zero_first_keeps_count)
  have kt: "\<forall>p (m :: 64 word mem). elasticarray_getsize 1 2 (trim 1 p m) = elasticarray_getsize 1 2 m"
    by (simp add: trim_keeps_count)
  have st: "spec_iterate 1 (unat (2 :: 64 word)) (trim 1) [0, 1, 2] ?M =
      ([(Some 2, 0), (Some 3, 2), (Some 3, 4)],
       ?M\<lparr>objs := [1 \<mapsto> \<lparr>size_bytes = 6, alloc = 6, buf = Some 3\<rparr>],
           blocks := [3 \<mapsto> [1, 2, 3, 4, 5, 6]], brk := 4, requests := 1\<rparr>)"
    by (simp add: Let_def storage_def trim_def elasticarray_truncate_def realloc_def mem_one_def
        grant_all_def)
  from iter_visits [OF E two kz] have gs: "elasticarray_getsize 1 2 ?M = Some 3"
    by simp
  have fz: "\<forall>p (m :: 64 word mem). storage (zero_first p m) 1 = storage m 1"
    by (simp add: zero_first_def storage_def split: prod.splits option.splits)
  from iter_visits [OF E two kz] fz obtain calls m'
    where "elasticarray_iter 1 2 zero_first ?M = Some (calls, m')" and "m' = fold zero_first calls ?M"
      and "calls = map (\<lambda>j. (buf \<lparr>size_bytes = 6 :: 64 word, alloc = 8 :: 64 word, buf = Some 2\<rparr>,
                               j * unat (2 :: 64 word))) [0, 1, 2]"
    unfolding n by blast
  then have z: "elasticarray_iter 1 2 zero_first ?M =
      Some ([(Some 2, 0), (Some 2, 2), (Some 2, 4)], ?M\<lparr>blocks := [2 \<mapsto> [0, 2, 0, 4, 0, 6, 7, 8]]\<rparr>)"
    by (simp add: zero_first_def mem_one_def)
  from iter_visits [OF E two kt]
  have t: "elasticarray_iter 1 2 (trim 1) ?M =
      Some ([(Some 2, 0), (Some 3, 2), (Some 3, 4)],
            ?M\<lparr>objs := [1 \<mapsto> \<lparr>size_bytes = 6, alloc = 6, buf = Some 3\<rparr>],
                blocks := [3 \<mapsto> [1, 2, 3, 4, 5, 6]], brk := 4, requests := 1\<rparr>)"
    unfolding n st by auto
  from E two gs z t show ?thesis
    by blast
qed

section \<open>The invariants\<close>

lemma new_alloc_covers:
  fixes A T :: "'a::len word"
  assumes "unat A < 2 ^ (LENGTH('a) - 1)"
  shows "T \<le> new_alloc A T"
proof (cases "A < T")
  case True
  then show ?thesis
    by (simp add: new_alloc_def Let_def not_less)
next
  case False
  then have "unat T \<le> unat A"
    by (simp add: word_less_nat_alt)
  with assms have "unat T < 2 ^ (LENGTH('a) - 1)"
    by linarith
  then have "2 * unat T < 2 ^ LENGTH('a)"
    by (rule half_range)
  then have "unat (T * 2) = 2 * unat T"
    by (rule unat_times_numeral)
  then have "T \<le> T * 2"
    by (simp add: word_le_nat_alt)
  with False show ?thesis
    by (auto simp add: new_alloc_def)
qed

lemma new_alloc_compact:
  fixes A T :: "'a::len word"
  shows "unat (new_alloc A T) \<le> 4 * unat T"
proof (cases "A < T")
  case True
  have "unat (A * 2) \<le> 2 * unat A"
    by (rule unat_times_le)
  moreover from True have "unat A < unat T"
    by (simp add: word_less_nat_alt)
  ultimately have "unat (A * 2) \<le> 4 * unat T"
    by linarith
  with True show ?thesis
    by (simp add: new_alloc_def Let_def)
next
  case False
  have a: "unat (T * 2) \<le> 2 * unat T"
    by (rule unat_times_le)
  have b: "unat (T * 4) \<le> 4 * unat T"
    by (rule unat_times_le)
  show ?thesis
  proof (cases "A > T * 4")
    case True
    with False a show ?thesis
      by (simp add: new_alloc_def)
  next
    case nb: False
    then have "unat A \<le> unat (T * 4)"
      by (simp add: word_less_nat_alt)
    with b have "unat A \<le> 4 * unat T"
      by linarith
    with False nb show ?thesis
      by (simp add: new_alloc_def)
  qed
qed

lemma ea_inv_frame:
  assumes "objs m' = objs m" and "blocks m' = blocks m"
  shows "ea_inv m' ea = ea_inv m ea"
  using assms by (simp add: ea_inv_def split: option.splits)

lemma resize_inv:
  assumes inv: "ea_inv m ea" and E: "objs m ea = Some E"
    and res: "resize ea T m = Some (r, m1)" and cov: "T \<le> new_alloc (alloc E) T"
  shows "ea_inv m1 ea"
proof (cases "r = 0")
  case False
  with res have "m1 = m\<lparr>requests := Suc (requests m), errno := ENOMEM\<rparr>"
    using resize_fails by blast
  then have "ea_inv m1 ea = ea_inv m ea"
    by (intro ea_inv_frame) simp_all
  with inv show ?thesis
    by simp
next
  case True
  show ?thesis
  proof (cases "new_alloc (alloc E) T = 0")
    case z: True
    with cov have "T = 0"
      by simp
    with inv E res z True show ?thesis
      by (auto simp: resize_def free_def ea_inv_def Let_def split: option.splits)
  next
    case nz: False
    show ?thesis
    proof (cases "new_alloc (alloc E) T = alloc E")
      case same: True
      with inv E res nz cov show ?thesis
        by (auto simp: resize_def ea_inv_def Let_def split: option.splits)
    next
      case diff: False
      show ?thesis
      proof (cases "buf E")
        case None
        with inv E res nz diff cov True show ?thesis
          by (auto simp: resize_def realloc_def malloc_def ea_inv_def Let_def split: grant.splits)
      next
        case (Some a)
        with inv E obtain old where old: "blocks m a = Some old"
          by (auto simp: ea_inv_def split: option.splits)
        with Some inv E res nz diff cov True show ?thesis
          by (auto simp: resize_def realloc_def ea_inv_def Let_def split: grant.splits)
      qed
    qed
  qed
qed

lemma resize_compact:
  assumes E: "objs m ea = Some E" and res: "resize ea T m = Some (0, m1)"
  shows "compact m1 ea"
proof -
  from res E obtain E1 where "objs m1 = (objs m)(ea \<mapsto> E1)" and "size_bytes E1 = T"
    and "alloc E1 = new_alloc (alloc E) T"
    using resize_success by blast
  moreover have "unat (new_alloc (alloc E) T) \<le> 4 * unat T"
    by (rule new_alloc_compact)
  ultimately show ?thesis
    by (simp add: compact_def)
qed


lemma elasticarray_resize_inv:
  fixes nrec reclen :: "'a::len word"
  assumes inv: "ea_inv m ea" and E: "objs m ea = Some E"
    and small: "unat (alloc E) < 2 ^ (LENGTH('a) - 1)"
    and res: "elasticarray_resize ea nrec reclen m = Some (r, m')"
  shows "ea_inv m' ea \<and> (r = 0 \<longrightarrow> compact m' ea)"
proof (cases "nrec > SIZE_MAX div reclen")
  case True
  with res have "m' = m\<lparr>errno := ENOMEM\<rparr>" and "r = - 1"
    by (auto simp: elasticarray_resize_def split: if_splits)
  moreover then have "ea_inv m' ea = ea_inv m ea"
    by (intro ea_inv_frame) simp_all
  ultimately show ?thesis
    using inv by simp
next
  case False
  with res obtain r0 where r0: "resize ea (nrec * reclen) m = Some (r0, m')"
    and r: "r = (if r0 \<noteq> 0 then - 1 else 0)"
    by (auto simp: elasticarray_resize_def split: if_splits option.splits)
  from small have "nrec * reclen \<le> new_alloc (alloc E) (nrec * reclen)"
    by (rule new_alloc_covers)
  with inv E r0 have "ea_inv m' ea"
    by (rule resize_inv)
  moreover have "r = 0 \<longrightarrow> compact m' ea"
  proof
    assume "r = 0"
    with r have "r0 = 0"
      by (simp split: if_splits)
    with r0 E show "compact m' ea"
      using resize_compact by blast
  qed
  ultimately show ?thesis
    by simp
qed

lemma memcpy_to_inv:
  assumes "ea_inv m ea" and "memcpy_to p off src k m = Some m'"
  shows "ea_inv m' ea \<and> objs m' = objs m"
  using assms
  by (auto simp: memcpy_to_def ea_inv_def split: option.splits if_splits)

lemma memcpy_to_objs:
  assumes "memcpy_to p off src k m = Some m'"
  shows "objs m' = objs m"
  using assms by (auto simp: memcpy_to_def split: option.splits if_splits)

lemma elasticarray_append_inv:
  fixes nrec reclen :: "'a::len word"
  assumes inv: "ea_inv m ea" and E: "objs m ea = Some E"
    and small: "unat (alloc E) < 2 ^ (LENGTH('a) - 1)"
    and res: "elasticarray_append ea src nrec reclen m = Some (r, m')"
  shows "ea_inv m' ea \<and> (r = 0 \<longrightarrow> compact m' ea)"
proof (cases "nrec > SIZE_MAX div reclen \<or> nrec * reclen > SIZE_MAX - size_bytes E")
  case True
  with res E have "m' = m\<lparr>errno := ENOMEM\<rparr>" and "r = - 1"
    by (auto simp: elasticarray_append_def split: if_splits)
  moreover then have "ea_inv m' ea = ea_inv m ea"
    by (intro ea_inv_frame) simp_all
  ultimately show ?thesis
    using inv by simp
next
  case False
  let ?T = "size_bytes E + nrec * reclen"
  from inv obtain r0 m1 where r0: "resize ea ?T m = Some (r0, m1)"
    using resize_total by blast
  from small have "?T \<le> new_alloc (alloc E) ?T"
    by (rule new_alloc_covers)
  with inv E r0 have inv1: "ea_inv m1 ea"
    by (rule resize_inv)
  show ?thesis
  proof (cases "r0 = 0")
    case nz: False
    with res E False r0 have "m' = m1" and "r = - 1"
      by (auto simp: elasticarray_append_def split: if_splits)
    with inv1 show ?thesis
      by simp
  next
    case True
    with r0 E have c1: "compact m1 ea"
      using resize_compact by blast
    show ?thesis
    proof (cases "nrec > 0")
      case nrec: False
      with res E False r0 True have "m' = m1"
        by (auto simp: elasticarray_append_def split: if_splits)
      with inv1 c1 show ?thesis
        by simp
    next
      case nrec: True
      with res E False r0 True obtain E1 where "objs m1 ea = Some E1"
        and "memcpy_to (buf E1) (unat (size_bytes E)) src (unat (nrec * reclen)) m1 = Some m'"
        by (auto simp: elasticarray_append_def split: if_splits option.splits)
      with inv1 have "ea_inv m' ea" and "objs m' = objs m1"
        using memcpy_to_inv by blast+
      with c1 show ?thesis
        by (simp add: compact_def)
    qed
  qed
qed

lemma elasticarray_shrink_inv:
  fixes nrec reclen :: "'a::len word"
  assumes inv: "ea_inv m ea" and E: "objs m ea = Some E"
    and small: "unat (alloc E) < 2 ^ (LENGTH('a) - 1)"
    and res: "elasticarray_shrink ea nrec reclen m = Some m'"
    and nsize: "nsize = (if nrec > SIZE_MAX div reclen \<or> nrec * reclen > size_bytes E
                         then 0 else size_bytes E - nrec * reclen)"
  shows "ea_inv m' ea \<and>
         (\<not> (reallocates (alloc E) nsize \<and> answers m (requests m) = Refuse) \<longrightarrow> compact m' ea)"
proof -
  from res E have r: "reclen \<noteq> 0"
    by (auto simp: elasticarray_shrink_def split: if_splits)
  from inv obtain r0 m1 where r0: "resize ea nsize m = Some (r0, m1)"
    using resize_total by blast
  from small have "nsize \<le> new_alloc (alloc E) nsize"
    by (rule new_alloc_covers)
  with inv E r0 have inv1: "ea_inv m1 ea"
    by (rule resize_inv)
  show ?thesis
  proof (cases "r0 = 0")
    case True
    with res E r r0 nsize have "m' = m1"
      by (simp add: elasticarray_shrink_def)
    moreover from True r0 E have "compact m1 ea"
      using resize_compact by blast
    ultimately show ?thesis
      using inv1 by simp
  next
    case False
    with r0 have m1: "m1 = m\<lparr>requests := Suc (requests m), errno := ENOMEM\<rparr>"
      and ref: "answers m (requests m) = Refuse"
      using resize_fails by blast+
    with res E r r0 nsize False
    have m': "m' = m\<lparr>requests := Suc (requests m), errno := ENOMEM,
                      objs := (objs m)(ea \<mapsto> E\<lparr>size_bytes := nsize\<rparr>)\<rparr>"
      by (simp add: elasticarray_shrink_def)
    from r have "nsize \<le> size_bytes E"
      unfolding nsize by (rule shrink_target(2))
    moreover from inv E have "size_bytes E \<le> alloc E"
      by (simp add: ea_inv_def)
    ultimately have "nsize \<le> alloc E"
      by (rule order_trans)
    with inv E m' have "ea_inv m' ea"
      by (auto simp: ea_inv_def split: option.splits)
    moreover from r0 False E inv have "reallocates (alloc E) nsize"
      by (auto simp: resize_def reallocates_def Let_def free_def ea_inv_def
          split: option.splits if_splits)
    ultimately show ?thesis
      using ref by simp
  qed
qed

text \<open>
  The bound of four times the size after a successful operation needs no bound on the
  sizes: \<^verbatim>\<open>resize\<close> establishes it whenever it returns 0.
\<close>

lemma elasticarray_resize_compact:
  fixes nrec reclen :: "'a::len word"
  assumes E: "objs m ea = Some E" and res: "elasticarray_resize ea nrec reclen m = Some (0, m')"
  shows "compact m' ea"
proof -
  from res have "resize ea (nrec * reclen) m = Some (0, m')"
    by (auto simp: elasticarray_resize_def split: if_splits option.splits)
  with E show ?thesis
    by (rule resize_compact)
qed

lemma elasticarray_append_compact:
  fixes nrec reclen :: "'a::len word"
  assumes E: "objs m ea = Some E" and res: "elasticarray_append ea src nrec reclen m = Some (0, m')"
  shows "compact m' ea"
proof -
  from res E have "\<exists>m1. resize ea (size_bytes E + nrec * reclen) m = Some (0, m1) \<and> objs m' = objs m1"
    by (auto simp: elasticarray_append_def dest: memcpy_to_objs split: if_splits option.splits)
  then obtain m1 where r0: "resize ea (size_bytes E + nrec * reclen) m = Some (0, m1)"
    and o: "objs m' = objs m1"
    by blast
  from E r0 have "compact m1 ea"
    by (rule resize_compact)
  with o show ?thesis
    by (simp add: compact_def)
qed

lemma elasticarray_shrink_compact:
  fixes nrec reclen :: "'a::len word"
  assumes E: "objs m ea = Some E" and res: "elasticarray_shrink ea nrec reclen m = Some m'"
    and nsize: "nsize = (if nrec > SIZE_MAX div reclen \<or> nrec * reclen > size_bytes E
                         then 0 else size_bytes E - nrec * reclen)"
    and ok: "\<not> (reallocates (alloc E) nsize \<and> answers m (requests m) = Refuse)"
  shows "compact m' ea"
proof -
  from res E nsize obtain r0 m1 where r0: "resize ea nsize m = Some (r0, m1)"
    by (auto simp: elasticarray_shrink_def Let_def split: if_splits option.splits)
  have z: "r0 = 0"
  proof (rule ccontr)
    assume nz: "r0 \<noteq> 0"
    with r0 have "answers m (requests m) = Refuse"
      using resize_fails by blast
    moreover from r0 nz E have "reallocates (alloc E) nsize"
      by (auto simp: resize_def reallocates_def Let_def split: option.splits if_splits)
    ultimately show False
      using ok by simp
  qed
  with res E r0 nsize have "m' = m1"
    by (auto simp: elasticarray_shrink_def Let_def split: if_splits)
  moreover from E r0 z have "compact m1 ea"
    using resize_compact by blast
  ultimately show ?thesis
    by simp
qed

lemma elasticarray_truncate_inv:
  assumes inv: "ea_inv m ea" and res: "elasticarray_truncate ea m = Some (r, m')"
  shows "ea_inv m' ea \<and> (r = 0 \<longrightarrow> compact m' ea)"
proof (cases "r = 0")
  case True
  from inv obtain E where E: "objs m ea = Some E"
    by (auto simp: ea_inv_def split: option.splits)
  with inv res True obtain E1 where "objs m1 ea = Some E1" and "size_bytes E1 = size_bytes E"
    and "alloc E1 = size_bytes E" and "ea_inv m1 ea" if "m1 = m'" for m1
    using truncate_success by blast
  then show ?thesis
    by (simp add: compact_def)
next
  case False
  with res have "m' = m\<lparr>requests := Suc (requests m), errno := ENOMEM\<rparr>"
    using truncate_fails by blast
  then have "ea_inv m' ea = ea_inv m ea"
    by (intro ea_inv_frame) simp_all
  with inv False show ?thesis
    by simp
qed

lemma elasticarray_init_inv:
  fixes nrec reclen :: "'a::len word"
  assumes res: "elasticarray_init nrec reclen m = Some (Some ea, m')"
  shows "ea_inv m' ea \<and> compact m' ea"
proof -
  from res obtain mv junk where g: "answers m (requests m) = Grant mv junk" and ea: "ea = brk m"
    by (auto simp: elasticarray_init_def malloc_struct_def Let_def
        split: if_splits grant.splits option.splits prod.splits)
  define m2 where "m2 = m\<lparr>brk := Suc (brk m), requests := Suc (requests m),
                          objs := (objs m)(brk m \<mapsto> \<lparr>size_bytes = 0, alloc = 0, buf = None\<rparr>)\<rparr>"
  have inv2: "ea_inv m2 ea" and E2: "objs m2 ea = Some \<lparr>size_bytes = 0, alloc = (0 :: 'a word), buf = None\<rparr>"
    by (simp_all add: m2_def ea ea_inv_def)
  from res g ea have "elasticarray_resize ea nrec reclen m2 = Some (0, m')"
    by (auto simp: elasticarray_init_def malloc_struct_def Let_def m2_def
        split: if_splits option.splits prod.splits)
  with inv2 E2 show ?thesis
    using elasticarray_resize_inv [of m2 ea _ nrec reclen 0 m'] by simp
qed

lemma elasticarray_export_inv:
  assumes inv: "ea_inv m ea" and res: "elasticarray_export ea reclen m = Some ((r, ob, on), m')"
  shows "(r \<noteq> 0 \<longrightarrow> ea_inv m' ea) \<and> (r = 0 \<longrightarrow> objs m' ea = None)"
proof -
  from inv obtain r0 m1 where tr: "elasticarray_truncate ea m = Some (r0, m1)"
    using truncate_total by blast
  show ?thesis
  proof (cases "r0 = 0")
    case True
    with res tr show ?thesis
      by (auto simp: elasticarray_export_def free_struct_def split: option.splits)
  next
    case False
    with tr inv have "ea_inv m1 ea"
      using elasticarray_truncate_inv by blast
    with res tr False show ?thesis
      by (auto simp: elasticarray_export_def)
  qed
qed

lemma elasticarray_exportdup_inv:
  assumes inv: "ea_inv m ea" and fresh: "blocks m (brk m) = None"
    and res: "elasticarray_exportdup ea reclen m = Some (res0, m')"
  shows "ea_inv m' ea \<and> objs m' = objs m"
  using assms
  by (auto simp: elasticarray_exportdup_def malloc_def memcpy_from_def memcpy_to_def
      elasticarray_getsize_def ea_inv_def
      split: option.splits grant.splits if_splits prod.splits)

text \<open>Runs of the operations on the concrete memories.\<close>

lemma big1: "elasticarray_init 0x80000000 1 (mem_empty grant_all :: 32 word mem) = Some (Some 1, big_mem)"
  by (simp add: elasticarray_init_def malloc_struct_def elasticarray_resize_def resize_def
      new_alloc_def realloc_def malloc_def SIZE_MAX_def mem_empty_def grant_all_def big_mem_def numeral_2_eq_2 [symmetric]
      del: upt_rec_numeral)

lemma big2: "ea_inv big_mem 1"
  by (simp add: ea_inv_def big_mem_def del: upt_rec_numeral)

lemma big3: "elasticarray_resize 1 0x80000000 1 big_mem =
     Some (0, big_mem\<lparr>objs := [1 \<mapsto> \<lparr>size_bytes = 0x80000000, alloc = 0, buf = None\<rparr>],
                      blocks := Map.empty\<rparr>)"
  by (simp add: elasticarray_resize_def resize_def new_alloc_def free_def SIZE_MAX_def big_mem_def
      del: upt_rec_numeral)

lemma big4: "elasticarray_append 1 [] 0 1 big_mem =
     Some (0, big_mem\<lparr>objs := [1 \<mapsto> \<lparr>size_bytes = 0x80000000, alloc = 0, buf = None\<rparr>],
                      blocks := Map.empty\<rparr>)"
  by (simp add: elasticarray_append_def resize_def new_alloc_def free_def SIZE_MAX_def big_mem_def
      del: upt_rec_numeral)

lemma big5: "length (content big_mem 1) = 2147483648 \<and>
   content (big_mem\<lparr>objs := [1 \<mapsto> \<lparr>size_bytes = 0x80000000, alloc = 0, buf = None\<rparr>],
                      blocks := Map.empty\<rparr>) 1 = []"
  by (simp add: content_def big_mem_def del: upt_rec_numeral)

lemma big6: "elasticarray_shrink 1 0 1 big_mem =
     Some (big_mem\<lparr>objs := [1 \<mapsto> \<lparr>size_bytes = 0x80000000, alloc = 0, buf = None\<rparr>],
                   blocks := Map.empty\<rparr>)"
  by (simp add: elasticarray_shrink_def resize_def new_alloc_def free_def SIZE_MAX_def big_mem_def
      del: upt_rec_numeral)

lemma big7: "objs big_mem 1 = Some \<lparr>size_bytes = 0x80000000, alloc = 0x80000000, buf = Some 2\<rparr>"
  by (simp add: big_mem_def)

lemma big8: "\<not> ea_inv (big_mem\<lparr>objs := [1 \<mapsto> \<lparr>size_bytes = 0x80000000, alloc = 0, buf = None\<rparr>],
                      blocks := Map.empty\<rparr>) 1"
  by (simp add: ea_inv_def)

lemma ev_resize:
  "elasticarray_resize 1 5 2 (mem_one grant_all 6 8 [1, 2, 3, 4, 5, 6, 7, 8] :: 64 word mem) =
     Some (0, mem_one grant_all 6 8 [1, 2, 3, 4, 5, 6, 7, 8]
                \<lparr>objs := [1 \<mapsto> \<lparr>size_bytes = 10, alloc = 16, buf = Some 3\<rparr>],
                  blocks := [3 \<mapsto> [1, 2, 3, 4, 5, 6, 7, 8] @ replicate 8 0],
                  brk := 4, requests := 1\<rparr>)"
  by (simp add: elasticarray_resize_def resize_def new_alloc_def realloc_def SIZE_MAX_def
      mem_one_def grant_all_def map_const_upt del: upt_rec_numeral)

lemma ev_append:
  "elasticarray_append 1 [9, 9] 1 2 (mem_one grant_all 6 8 [1, 2, 3, 4, 5, 6, 7, 8] :: 64 word mem) =
     Some (0, mem_one grant_all 6 8 [1, 2, 3, 4, 5, 6, 7, 8]
                \<lparr>objs := [1 \<mapsto> \<lparr>size_bytes = 8, alloc = 8, buf = Some 2\<rparr>],
                  blocks := [2 \<mapsto> [1, 2, 3, 4, 5, 6, 9, 9]]\<rparr>)"
  by (simp add: elasticarray_append_def resize_def new_alloc_def memcpy_to_def SIZE_MAX_def
      mem_one_def)

lemma ev_shrink:
  "elasticarray_shrink 1 2 2 (mem_one grant_all 6 8 [1, 2, 3, 4, 5, 6, 7, 8] :: 64 word mem) =
     Some (mem_one grant_all 6 8 [1, 2, 3, 4, 5, 6, 7, 8]
             \<lparr>objs := [1 \<mapsto> \<lparr>size_bytes = 2, alloc = 8, buf = Some 2\<rparr>]\<rparr>)"
  by (simp add: elasticarray_shrink_def resize_def new_alloc_def SIZE_MAX_def mem_one_def)

lemma ev_truncate:
  "elasticarray_truncate 1 (mem_one grant_all 6 8 [1, 2, 3, 4, 5, 6, 7, 8] :: 64 word mem) =
     Some (0, mem_one grant_all 6 8 [1, 2, 3, 4, 5, 6, 7, 8]
                \<lparr>objs := [1 \<mapsto> \<lparr>size_bytes = 6, alloc = 6, buf = Some 3\<rparr>],
                  blocks := [3 \<mapsto> [1, 2, 3, 4, 5, 6]], brk := 4, requests := 1\<rparr>)"
  by (simp add: elasticarray_truncate_def realloc_def mem_one_def grant_all_def)

lemma ev_init:
  "elasticarray_init 3 2 (mem_empty grant_all :: 64 word mem) =
     Some (Some 1, mem_empty grant_all
                \<lparr>objs := [1 \<mapsto> \<lparr>size_bytes = 6, alloc = 6, buf = Some 2\<rparr>],
                  blocks := [2 \<mapsto> replicate 6 0], brk := 3, requests := 2\<rparr>)"
  by (simp add: elasticarray_init_def malloc_struct_def elasticarray_resize_def resize_def
      new_alloc_def realloc_def malloc_def SIZE_MAX_def mem_empty_def grant_all_def
      numeral_2_eq_2 [symmetric] numeral_3_eq_3 [symmetric] map_const_upt del: upt_rec_numeral)

lemma ev_export:
  "elasticarray_export 1 2 (mem_one grant_all 6 8 [1, 2, 3, 4, 5, 6, 7, 8] :: 64 word mem) =
     Some ((0, Some (Some 3), Some 3),
           mem_one grant_all 6 8 [1, 2, 3, 4, 5, 6, 7, 8]
             \<lparr>objs := Map.empty, blocks := [3 \<mapsto> [1, 2, 3, 4, 5, 6]], brk := 4, requests := 1\<rparr>)"
  by (simp add: mem_one_def grant_all_def elasticarray_export_def elasticarray_truncate_def
      realloc_def elasticarray_getsize_def free_struct_def)

lemma ev_exportdup:
  "elasticarray_exportdup 1 2 (mem_one grant_all 6 8 [1, 2, 3, 4, 5, 6, 7, 8] :: 64 word mem) =
     Some ((0, Some (Some 3), Some 3),
           mem_one grant_all 6 8 [1, 2, 3, 4, 5, 6, 7, 8]
             \<lparr>blocks := [2 \<mapsto> [1, 2, 3, 4, 5, 6, 7, 8], 3 \<mapsto> [1, 2, 3, 4, 5, 6]],
               brk := 4, requests := 1\<rparr>)"
  by (simp add: mem_one_def grant_all_def elasticarray_exportdup_def malloc_def memcpy_from_def
      memcpy_to_def elasticarray_getsize_def)

text \<open>
  What is preserved. Take a buffer that satisfies the invariants (\<open>ea_inv\<close>: the wrapper is
  live, \<^verbatim>\<open>size <= alloc\<close>, and the storage is a live block of \<^verbatim>\<open>alloc\<close> bytes, absent
  exactly when \<^verbatim>\<open>alloc\<close> is 0). The invariants hold again after
  \<^verbatim>\<open>elasticarray_truncate\<close>, whatever it returns, after a failed \<^verbatim>\<open>elasticarray_export\<close>,
  and after \<^verbatim>\<open>elasticarray_exportdup\<close> (given that the allocator hands out an unused
  address); they hold for the array that a successful \<^verbatim>\<open>elasticarray_init\<close> returns; and
  they hold after \<^verbatim>\<open>elasticarray_resize\<close>, \<^verbatim>\<open>elasticarray_append\<close> and
  \<^verbatim>\<open>elasticarray_shrink\<close>, whatever they return, when the allocated size is at most
  \<open>SIZE_MAX / 2\<close>. The bound \<^verbatim>\<open>alloc <= 4 * size\<close> for a non-empty buffer holds after every
  successful init, resize, append or truncate and after a shrink, unless the reallocation
  inside the shrink was refused, with no condition on the sizes;
  \<^verbatim>\<open>elasticarray_exportdup\<close> leaves the wrapper as it was, so the bound holds after it when
  it held before. A successful export leaves no wrapper.
\<close>

lemma invariants_preserved:
  fixes nrec reclen :: "'a::len word"
  assumes "ea_inv m ea" and "objs m ea = Some E"
  shows
    "(elasticarray_init nrec reclen m0 = Some (Some ea0, m1) \<longrightarrow> ea_inv m1 ea0 \<and> compact m1 ea0) \<and>
     (elasticarray_resize ea nrec reclen m = Some (r2, m2) \<longrightarrow>
        (unat (alloc E) < 2 ^ (LENGTH('a) - 1) \<longrightarrow> ea_inv m2 ea) \<and> (r2 = 0 \<longrightarrow> compact m2 ea)) \<and>
     (elasticarray_append ea src nrec reclen m = Some (r3, m3) \<longrightarrow>
        (unat (alloc E) < 2 ^ (LENGTH('a) - 1) \<longrightarrow> ea_inv m3 ea) \<and> (r3 = 0 \<longrightarrow> compact m3 ea)) \<and>
     (elasticarray_shrink ea nrec reclen m = Some m4 \<longrightarrow>
        (unat (alloc E) < 2 ^ (LENGTH('a) - 1) \<longrightarrow> ea_inv m4 ea) \<and>
        (\<not> (reallocates (alloc E)
               (if nrec > SIZE_MAX div reclen \<or> nrec * reclen > size_bytes E
                then 0 else size_bytes E - nrec * reclen) \<and>
             answers m (requests m) = Refuse) \<longrightarrow> compact m4 ea)) \<and>
     (elasticarray_truncate ea m = Some (r5, m5) \<longrightarrow>
        ea_inv m5 ea \<and> (r5 = 0 \<longrightarrow> compact m5 ea)) \<and>
     (elasticarray_export ea reclen m = Some ((r6, ob6, on6), m6) \<longrightarrow>
        (r6 \<noteq> 0 \<longrightarrow> ea_inv m6 ea) \<and> (r6 = 0 \<longrightarrow> objs m6 ea = None)) \<and>
     (blocks m (brk m) = None \<longrightarrow> elasticarray_exportdup ea reclen m = Some (res7, m7) \<longrightarrow>
        ea_inv m7 ea \<and> objs m7 = objs m \<and> (compact m ea \<longrightarrow> compact m7 ea))"
proof (intro conjI impI)
  assume "elasticarray_init nrec reclen m0 = Some (Some ea0, m1)"
  then show "ea_inv m1 ea0" and "compact m1 ea0"
    using elasticarray_init_inv by blast+
next
  assume a: "elasticarray_resize ea nrec reclen m = Some (r2, m2)"
  {
    assume "unat (alloc E) < 2 ^ (LENGTH('a) - 1)"
    with assms a show "ea_inv m2 ea"
      using elasticarray_resize_inv by blast
  }
  {
    assume "r2 = 0"
    with assms(2) a show "compact m2 ea"
      using elasticarray_resize_compact by blast
  }
next
  assume a: "elasticarray_append ea src nrec reclen m = Some (r3, m3)"
  {
    assume "unat (alloc E) < 2 ^ (LENGTH('a) - 1)"
    with assms a show "ea_inv m3 ea"
      using elasticarray_append_inv by blast
  }
  {
    assume "r3 = 0"
    with assms(2) a show "compact m3 ea"
      using elasticarray_append_compact by blast
  }
next
  assume a: "elasticarray_shrink ea nrec reclen m = Some m4"
  {
    assume small: "unat (alloc E) < 2 ^ (LENGTH('a) - 1)"
    from elasticarray_shrink_inv [OF assms small a refl] show "ea_inv m4 ea"
      by simp
  }
  {
    assume "\<not> (reallocates (alloc E)
               (if nrec > SIZE_MAX div reclen \<or> nrec * reclen > size_bytes E
                then 0 else size_bytes E - nrec * reclen) \<and>
             answers m (requests m) = Refuse)"
    with assms(2) a refl show "compact m4 ea"
      by (rule elasticarray_shrink_compact)
  }
next
  assume a: "elasticarray_truncate ea m = Some (r5, m5)"
  with assms(1) show "ea_inv m5 ea"
    using elasticarray_truncate_inv by blast
  assume "r5 = 0"
  with assms(1) a show "compact m5 ea"
    using elasticarray_truncate_inv by blast
next
  assume a: "elasticarray_export ea reclen m = Some ((r6, ob6, on6), m6)"
  {
    assume "r6 \<noteq> 0"
    with assms(1) a show "ea_inv m6 ea"
      using elasticarray_export_inv by blast
  }
  {
    assume "r6 = 0"
    with assms(1) a show "objs m6 ea = None"
      using elasticarray_export_inv by blast
  }
next
  assume a: "blocks m (brk m) = None" "elasticarray_exportdup ea reclen m = Some (res7, m7)"
  with assms(1) show "ea_inv m7 ea" and o: "objs m7 = objs m"
    using elasticarray_exportdup_inv by blast+
  assume "compact m ea"
  with o show "compact m7 ea"
    by (simp add: compact_def)
qed

lemma invariants_preserved_witness:
  "ea_inv (mem_one grant_all 6 8 [1, 2, 3, 4, 5, 6, 7, 8] :: 64 word mem) 1 \<and>
   unat (8 :: 64 word) < 2 ^ (LENGTH(64) - 1) \<and>
   blocks (mem_one grant_all 6 8 [1, 2, 3, 4, 5, 6, 7, 8] :: 64 word mem)
     (brk (mem_one grant_all 6 8 [1, 2, 3, 4, 5, 6, 7, 8] :: 64 word mem)) = None \<and>
   elasticarray_init 3 2 (mem_empty grant_all :: 64 word mem) =
     Some (Some 1, mem_empty grant_all
                \<lparr>objs := [1 \<mapsto> \<lparr>size_bytes = 6, alloc = 6, buf = Some 2\<rparr>],
                  blocks := [2 \<mapsto> replicate 6 0], brk := 3, requests := 2\<rparr>) \<and>
   ea_inv (mem_empty grant_all
                \<lparr>objs := [1 \<mapsto> \<lparr>size_bytes = 6, alloc = 6, buf = Some 2\<rparr>],
                  blocks := [2 \<mapsto> replicate 6 0], brk := 3, requests := 2\<rparr> :: 64 word mem) 1 \<and>
   elasticarray_resize 1 5 2 (mem_one grant_all 6 8 [1, 2, 3, 4, 5, 6, 7, 8] :: 64 word mem) =
     Some (0, mem_one grant_all 6 8 [1, 2, 3, 4, 5, 6, 7, 8]
                \<lparr>objs := [1 \<mapsto> \<lparr>size_bytes = 10, alloc = 16, buf = Some 3\<rparr>],
                  blocks := [3 \<mapsto> [1, 2, 3, 4, 5, 6, 7, 8] @ replicate 8 0],
                  brk := 4, requests := 1\<rparr>) \<and>
   compact (mem_one grant_all 6 8 [1, 2, 3, 4, 5, 6, 7, 8]
                \<lparr>objs := [1 \<mapsto> \<lparr>size_bytes = 10, alloc = 16, buf = Some 3\<rparr>],
                  blocks := [3 \<mapsto> [1, 2, 3, 4, 5, 6, 7, 8] @ replicate 8 0],
                  brk := 4, requests := 1\<rparr> :: 64 word mem) 1 \<and>
   elasticarray_append 1 [9, 9] 1 2 (mem_one grant_all 6 8 [1, 2, 3, 4, 5, 6, 7, 8] :: 64 word mem) =
     Some (0, mem_one grant_all 6 8 [1, 2, 3, 4, 5, 6, 7, 8]
                \<lparr>objs := [1 \<mapsto> \<lparr>size_bytes = 8, alloc = 8, buf = Some 2\<rparr>],
                  blocks := [2 \<mapsto> [1, 2, 3, 4, 5, 6, 9, 9]]\<rparr>) \<and>
   ea_inv (mem_one grant_all 6 8 [1, 2, 3, 4, 5, 6, 7, 8]
                \<lparr>objs := [1 \<mapsto> \<lparr>size_bytes = 8, alloc = 8, buf = Some 2\<rparr>],
                  blocks := [2 \<mapsto> [1, 2, 3, 4, 5, 6, 9, 9]]\<rparr> :: 64 word mem) 1 \<and>
   elasticarray_shrink 1 2 2 (mem_one grant_all 6 8 [1, 2, 3, 4, 5, 6, 7, 8] :: 64 word mem) =
     Some (mem_one grant_all 6 8 [1, 2, 3, 4, 5, 6, 7, 8]
             \<lparr>objs := [1 \<mapsto> \<lparr>size_bytes = 2, alloc = 8, buf = Some 2\<rparr>]\<rparr>) \<and>
   compact (mem_one grant_all 6 8 [1, 2, 3, 4, 5, 6, 7, 8]
             \<lparr>objs := [1 \<mapsto> \<lparr>size_bytes = 2, alloc = 8, buf = Some 2\<rparr>]\<rparr> :: 64 word mem) 1 \<and>
   elasticarray_truncate 1 (mem_one grant_all 6 8 [1, 2, 3, 4, 5, 6, 7, 8] :: 64 word mem) =
     Some (0, mem_one grant_all 6 8 [1, 2, 3, 4, 5, 6, 7, 8]
                \<lparr>objs := [1 \<mapsto> \<lparr>size_bytes = 6, alloc = 6, buf = Some 3\<rparr>],
                  blocks := [3 \<mapsto> [1, 2, 3, 4, 5, 6]], brk := 4, requests := 1\<rparr>) \<and>
   ea_inv (mem_one grant_all 6 8 [1, 2, 3, 4, 5, 6, 7, 8]
                \<lparr>objs := [1 \<mapsto> \<lparr>size_bytes = 6, alloc = 6, buf = Some 3\<rparr>],
                  blocks := [3 \<mapsto> [1, 2, 3, 4, 5, 6]], brk := 4, requests := 1\<rparr> :: 64 word mem) 1 \<and>
   elasticarray_export 1 2 (mem_one grant_all 6 8 [1, 2, 3, 4, 5, 6, 7, 8] :: 64 word mem) =
     Some ((0, Some (Some 3), Some 3),
           mem_one grant_all 6 8 [1, 2, 3, 4, 5, 6, 7, 8]
             \<lparr>objs := Map.empty, blocks := [3 \<mapsto> [1, 2, 3, 4, 5, 6]], brk := 4, requests := 1\<rparr>) \<and>
   elasticarray_exportdup 1 2 (mem_one grant_all 6 8 [1, 2, 3, 4, 5, 6, 7, 8] :: 64 word mem) =
     Some ((0, Some (Some 3), Some 3),
           mem_one grant_all 6 8 [1, 2, 3, 4, 5, 6, 7, 8]
             \<lparr>blocks := [2 \<mapsto> [1, 2, 3, 4, 5, 6, 7, 8], 3 \<mapsto> [1, 2, 3, 4, 5, 6]],
               brk := 4, requests := 1\<rparr>) \<and>
   ea_inv (mem_one grant_all 6 8 [1, 2, 3, 4, 5, 6, 7, 8]
             \<lparr>blocks := [2 \<mapsto> [1, 2, 3, 4, 5, 6, 7, 8], 3 \<mapsto> [1, 2, 3, 4, 5, 6]],
               brk := 4, requests := 1\<rparr> :: 64 word mem) 1"
proof -
  let ?M = "mem_one grant_all 6 8 [1, 2, 3, 4, 5, 6, 7, 8] :: 64 word mem"
  have inv: "ea_inv ?M 1"
    by (simp add: mem_one_def ea_inv_def)
  have E: "objs ?M 1 = Some \<lparr>size_bytes = 6, alloc = 8, buf = Some 2\<rparr>"
    by (simp add: mem_one_def)
  have small: "unat (alloc \<lparr>size_bytes = 6, alloc = 8 :: 64 word, buf = Some 2\<rparr>) < 2 ^ (LENGTH(64) - 1)"
    by simp
  have fresh: "blocks ?M (brk ?M) = None"
    by (simp add: mem_one_def)
  have grants: "answers ?M (requests ?M) \<noteq> Refuse"
    by (simp add: mem_one_def grant_all_def)
  note all = invariants_preserved [OF inv E]
  note i = all [THEN conjunct1, THEN mp, OF ev_init]
  note r = all [THEN conjunct2, THEN conjunct1, THEN mp, OF ev_resize]
  note a = all [THEN conjunct2, THEN conjunct2, THEN conjunct1, THEN mp, OF ev_append]
  note s = all [THEN conjunct2, THEN conjunct2, THEN conjunct2, THEN conjunct1, THEN mp,
      OF ev_shrink]
  note t = all [THEN conjunct2, THEN conjunct2, THEN conjunct2, THEN conjunct2, THEN conjunct1,
      THEN mp, OF ev_truncate]
  note d = all [THEN conjunct2, THEN conjunct2, THEN conjunct2, THEN conjunct2, THEN conjunct2,
      THEN conjunct2, THEN mp, THEN mp, OF fresh ev_exportdup]
  from r small have r': "compact (?M\<lparr>objs := [1 \<mapsto> \<lparr>size_bytes = 10, alloc = 16, buf = Some 3\<rparr>],
                  blocks := [3 \<mapsto> [1, 2, 3, 4, 5, 6, 7, 8] @ replicate 8 0],
                  brk := 4, requests := 1\<rparr>) 1"
    by blast
  from a small have a': "ea_inv (?M\<lparr>objs := [1 \<mapsto> \<lparr>size_bytes = 8, alloc = 8, buf = Some 2\<rparr>],
                  blocks := [2 \<mapsto> [1, 2, 3, 4, 5, 6, 9, 9]]\<rparr>) 1"
    by blast
  from s grants have s': "compact (?M\<lparr>objs := [1 \<mapsto> \<lparr>size_bytes = 2, alloc = 8, buf = Some 2\<rparr>]\<rparr>) 1"
    by simp
  have small': "unat (8 :: 64 word) < 2 ^ (LENGTH(64) - 1)"
    by simp
  from inv small' fresh i r' a' s' t d
    ev_init ev_resize ev_append ev_shrink ev_truncate ev_export ev_exportdup
  show ?thesis
    by blast
qed

text \<open>
  Claim C1. Every operation must leave \<^verbatim>\<open>size <= alloc\<close> on a buffer that satisfied the
  invariants. The code does not, through the wrap-around of \<^verbatim>\<open>nsize * 4\<close> and
  \<^verbatim>\<open>nsize * 2\<close> in \<^verbatim>\<open>resize\<close>: with a 32-bit \<^verbatim>\<open>size_t\<close>, the array of \<open>2^31\<close> bytes that
  \<^verbatim>\<open>elasticarray_init(0x80000000, 1)\<close> returns satisfies the invariants, with
  \<^verbatim>\<open>alloc = size\<close>; \<^verbatim>\<open>elasticarray_resize(EA, 0x80000000, 1)\<close>, which asks for the size
  the array has, and \<^verbatim>\<open>elasticarray_shrink(EA, 0, 1)\<close>, which removes nothing, both make
  \<^verbatim>\<open>resize\<close> compute \<^verbatim>\<open>nsize * 4 = 0\<close> and \<^verbatim>\<open>nsize * 2 = 0\<close>, free the storage and keep the
  size \<open>2^31\<close>; the resize reports success. Afterwards the logical size \<open>2^31\<close> exceeds the
  allocated size 0.
\<close>

theorem invariants_broken:
  "elasticarray_init 0x80000000 1 (mem_empty grant_all :: 32 word mem) = Some (Some 1, big_mem) \<and>
   ea_inv big_mem 1 \<and>
   objs big_mem 1 = Some \<lparr>size_bytes = 0x80000000, alloc = 0x80000000, buf = Some 2\<rparr> \<and>
   elasticarray_resize 1 0x80000000 1 big_mem =
     Some (0, big_mem\<lparr>objs := [1 \<mapsto> \<lparr>size_bytes = 0x80000000, alloc = 0, buf = None\<rparr>],
                      blocks := Map.empty\<rparr>) \<and>
   elasticarray_shrink 1 0 1 big_mem =
     Some (big_mem\<lparr>objs := [1 \<mapsto> \<lparr>size_bytes = 0x80000000, alloc = 0, buf = None\<rparr>],
                   blocks := Map.empty\<rparr>) \<and>
   \<not> ea_inv (big_mem\<lparr>objs := [1 \<mapsto> \<lparr>size_bytes = 0x80000000, alloc = 0, buf = None\<rparr>],
                      blocks := Map.empty\<rparr>) 1"
  using big1 big2 big3 big6 big7 big8 by simp

section \<open>Appending\<close>

text \<open>
  A successful append adds \<open>nrec * reclen\<close> to the logical size, and the sum does not wrap;
  so after a sequence of successful appends with one record length on an empty array the
  record count is the sum of the counts appended. Where the allocated size is at most
  \<open>SIZE_MAX / 2\<close>, a successful append also keeps the old content and puts the source bytes
  after it.
\<close>

lemma append_size:
  fixes nrec reclen :: "'a::len word"
  assumes E: "objs m ea = Some E" and res: "elasticarray_append ea src nrec reclen m = Some (0, m')"
  shows "\<exists>E'. objs m' ea = Some E' \<and>
           unat (size_bytes E') = unat (size_bytes E) + unat nrec * unat reclen"
proof -
  from res E have r: "reclen \<noteq> 0" and no: "\<not> nrec > SIZE_MAX div reclen"
    and no2: "\<not> nrec * reclen > SIZE_MAX - size_bytes E"
    by (auto simp: elasticarray_append_def split: if_splits)
  from r no have m: "unat (nrec * reclen) = unat nrec * unat reclen"
    by (rule no_overflow_mult)
  have "unat (SIZE_MAX - size_bytes E) = unat (SIZE_MAX :: 'a word) - unat (size_bytes E)"
    by (rule unat_sub) (simp add: SIZE_MAX_def)
  then have "unat (SIZE_MAX - size_bytes E) = 2 ^ LENGTH('a) - 1 - unat (size_bytes E)"
    by (simp only: unat_SIZE_MAX)
  moreover from no2 have "unat (nrec * reclen) \<le> unat (SIZE_MAX - size_bytes E)"
    by (simp add: word_less_nat_alt)
  moreover have "unat (size_bytes E) < 2 ^ LENGTH('a)"
    by (rule unsigned_less)
  ultimately have "unat (size_bytes E) + unat (nrec * reclen) < 2 ^ LENGTH('a)"
    by linarith
  then have sum: "unat (size_bytes E + nrec * reclen) = unat (size_bytes E) + unat (nrec * reclen)"
    by (rule unat_add_lem [THEN iffD1])
  from res E r no no2 obtain m1 where r0: "resize ea (size_bytes E + nrec * reclen) m = Some (0, m1)"
    and tail: "m' = m1 \<or> (\<exists>E1. objs m1 ea = Some E1 \<and>
        memcpy_to (buf E1) (unat (size_bytes E)) src (unat (nrec * reclen)) m1 = Some m')"
    by (auto simp: elasticarray_append_def split: if_splits option.splits)
  from r0 E obtain E1 where E1: "objs m1 = (objs m)(ea \<mapsto> E1)"
    and sz: "size_bytes E1 = size_bytes E + nrec * reclen"
    using resize_success by blast
  from tail have "objs m' = objs m1"
    using memcpy_to_objs by blast
  with E1 sz sum m show ?thesis
    by simp
qed

lemma append_all_size:
  fixes reclen :: "'a::len word"
  shows "objs m ea = Some E \<Longrightarrow> append_all ea reclen xs m = Some m' \<Longrightarrow>
         \<exists>E'. objs m' ea = Some E' \<and>
           unat (size_bytes E') = unat (size_bytes E) + sum_list (map (\<lambda>x. unat (snd x)) xs) * unat reclen"
proof (induction xs arbitrary: m E)
  case Nil
  then show ?case
    by simp
next
  case (Cons x xs)
  obtain src nrec where x: "x = (src, nrec)"
    by (cases x)
  with Cons.prems(2) obtain m1 where a: "elasticarray_append ea src nrec reclen m = Some (0, m1)"
    and rest: "append_all ea reclen xs m1 = Some m'"
    by (auto split: option.splits if_splits)
  from Cons.prems(1) a obtain E1 where E1: "objs m1 ea = Some E1"
    and s1: "unat (size_bytes E1) = unat (size_bytes E) + unat nrec * unat reclen"
    using append_size by blast
  from E1 rest obtain E' where "objs m' ea = Some E'"
    and "unat (size_bytes E') = unat (size_bytes E1) + sum_list (map (\<lambda>x. unat (snd x)) xs) * unat reclen"
    using Cons.IH by blast
  with s1 x show ?case
    by (simp add: add_mult_distrib)
qed

lemma append_all_count:
  fixes reclen :: "'a::len word"
  assumes "objs m ea = Some E" and "size_bytes E = 0" and "reclen \<noteq> 0"
    and "append_all ea reclen xs m = Some m'"
  shows "\<exists>c. elasticarray_getsize ea reclen m' = Some c \<and> unat c = sum_list (map (\<lambda>x. unat (snd x)) xs)"
proof -
  from assms(1,4) obtain E' where E': "objs m' ea = Some E'"
    and "unat (size_bytes E') = unat (size_bytes E) + sum_list (map (\<lambda>x. unat (snd x)) xs) * unat reclen"
    using append_all_size by blast
  with assms(2) have "unat (size_bytes E') = sum_list (map (\<lambda>x. unat (snd x)) xs) * unat reclen"
    by simp
  moreover from assms(3) have "0 < unat reclen"
    by (simp add: unat_gt_0)
  ultimately have "unat (size_bytes E' div reclen) = sum_list (map (\<lambda>x. unat (snd x)) xs)"
    by (simp add: unat_div)
  with E' assms(3) show ?thesis
    by (simp add: elasticarray_getsize_def)
qed

lemma resize_storage:
  fixes T :: "'a::len word"
  assumes inv: "ea_inv m ea" and E: "objs m ea = Some E"
    and res: "resize ea T m = Some (0, m1)"
    and le: "size_bytes E \<le> T" and nz: "T \<noteq> 0"
    and small: "unat (alloc E) < 2 ^ (LENGTH('a) - 1)"
  shows "\<exists>E1 p bs1. objs m1 ea = Some E1 \<and> size_bytes E1 = T \<and> buf E1 = Some p \<and>
           blocks m1 p = Some bs1 \<and> unat T \<le> length bs1 \<and>
           take (unat (size_bytes E)) bs1 = content m ea"
proof -
  from small have "T \<le> new_alloc (alloc E) T"
    by (rule new_alloc_covers)
  then have cov: "unat T \<le> unat (new_alloc (alloc E) T)"
    by (simp add: word_le_nat_alt)
  with nz have nz': "new_alloc (alloc E) T \<noteq> 0"
    by (metis le_zero_eq unat_0 unat_eq_0)
  from le have le': "unat (size_bytes E) \<le> unat T"
    by (simp add: word_le_nat_alt)
  show ?thesis
  proof (cases "new_alloc (alloc E) T = alloc E")
    case True
    with inv E res nz' cov show ?thesis
      by (auto simp: resize_def ea_inv_def content_def Let_def split: option.splits)
  next
    case diff: False
    show ?thesis
    proof (cases "buf E")
      case None
      with inv E res nz' diff cov show ?thesis
        by (auto simp: resize_def realloc_def malloc_def ea_inv_def content_def Let_def
            split: grant.splits)
    next
      case (Some a)
      with inv E obtain old where old: "blocks m a = Some old" and len: "length old = unat (alloc E)"
        and sa: "unat (size_bytes E) \<le> unat (alloc E)"
        by (auto simp: ea_inv_def word_le_nat_alt split: option.splits)
      with Some E res nz' diff cov le' show ?thesis
        by (auto simp: resize_def realloc_def content_def Let_def split: grant.splits)
    qed
  qed
qed

lemma append_appends:
  fixes nrec reclen :: "'a::len word"
  assumes inv: "ea_inv m ea" and E: "objs m ea = Some E"
    and small: "unat (alloc E) < 2 ^ (LENGTH('a) - 1)"
    and res: "elasticarray_append ea src nrec reclen m = Some (0, m')"
  shows "\<exists>E'. objs m' ea = Some E' \<and>
           unat (size_bytes E') = unat (size_bytes E) + unat nrec * unat reclen \<and>
           content m' ea = content m ea @ take (unat nrec * unat reclen) src \<and>
           length (content m' ea) = unat (size_bytes E')"
proof -
  let ?T = "size_bytes E + nrec * reclen"
  from E res obtain E' where E': "objs m' ea = Some E'"
    and sz: "unat (size_bytes E') = unat (size_bytes E) + unat nrec * unat reclen"
    using append_size by blast
  from res E have r: "reclen \<noteq> 0" and no: "\<not> nrec > SIZE_MAX div reclen"
    by (auto simp: elasticarray_append_def split: if_splits)
  from r no have mul: "unat (nrec * reclen) = unat nrec * unat reclen"
    by (rule no_overflow_mult)
  from res E r obtain m1 where r0: "resize ea ?T m = Some (0, m1)"
    by (auto simp: elasticarray_append_def split: if_splits option.splits)
  from r0 E obtain E1 where E1: "objs m1 = (objs m)(ea \<mapsto> E1)" and s1: "size_bytes E1 = ?T"
    using resize_success by blast
  from inv E have cl: "length (content m ea) = unat (size_bytes E)"
    by (auto simp: ea_inv_def content_def word_le_nat_alt split: option.splits)
  show ?thesis
  proof (cases "nrec > 0")
    case False
    then have z: "nrec = 0"
      by (simp add: word_gt_0)
    with res E r r0 have m': "m' = m1"
      by (auto simp: elasticarray_append_def split: if_splits)
    have "content m1 ea = content m ea"
    proof (cases "size_bytes E = 0")
      case True
      with cl have "content m ea = []"
        by simp
      moreover from True r0 z have "resize ea 0 m = Some (0, m1)"
        by simp
      then have "m1 = m\<lparr>blocks := (case buf E of None \<Rightarrow> blocks m | Some p \<Rightarrow> (blocks m)(p := None)),
                         objs := (objs m)(ea \<mapsto> \<lparr>size_bytes = 0, alloc = 0, buf = None\<rparr>)\<rparr>"
        by (simp add: resize_zero [OF inv E])
      then have "content m1 ea = []"
        by (simp add: content_def)
      ultimately show ?thesis
        by simp
    next
      case nz: False
      with inv E r0 z small obtain E2 p bs1 where "objs m1 ea = Some E2" and "size_bytes E2 = size_bytes E"
        and "buf E2 = Some p" and "blocks m1 p = Some bs1"
        and "take (unat (size_bytes E)) bs1 = content m ea"
        using resize_storage [of m ea E "size_bytes E" m1] by auto
      then show ?thesis
        by (simp add: content_def)
    qed
    with m' E' sz z cl show ?thesis
      by simp
  next
    case True
    then have nrz: "unat nrec \<noteq> 0"
      by (simp add: word_less_nat_alt)
    from r have "unat reclen \<noteq> 0"
      by (simp add: unat_eq_0)
    with nrz sz have "unat (size_bytes E') \<noteq> unat (size_bytes E)"
      by simp
    from True res E r r0 E1 have cp: "memcpy_to (buf E1) (unat (size_bytes E)) src (unat (nrec * reclen)) m1 = Some m'"
      by (auto simp: elasticarray_append_def split: if_splits option.splits)
    from E' E1 cp have e: "E' = E1"
      using memcpy_to_objs by fastforce
    with s1 sz mul have tsum: "unat ?T = unat (size_bytes E) + unat (nrec * reclen)"
      by simp
    with nrz \<open>unat reclen \<noteq> 0\<close> mul have tnz: "?T \<noteq> 0"
      by (metis add_is_0 mult_is_0 unat_0)
    have le: "size_bytes E \<le> ?T"
      using tsum by (simp add: word_le_nat_alt)
    from inv E r0 le tnz small obtain E2 p bs1 where "objs m1 ea = Some E2" and b: "buf E2 = Some p"
      and bs1: "blocks m1 p = Some bs1" and l1: "unat ?T \<le> length bs1"
      and pre: "take (unat (size_bytes E)) bs1 = content m ea"
      using resize_storage by blast
    with E1 have e2: "E2 = E1"
      by simp
    from cp b e2 bs1 have k: "unat (nrec * reclen) \<le> length src"
      and m': "m' = m1\<lparr>blocks := (blocks m1)(p \<mapsto> take (unat (size_bytes E)) bs1 @
          take (unat (nrec * reclen)) src @ drop (unat (size_bytes E) + unat (nrec * reclen)) bs1)\<rparr>"
      by (auto simp: memcpy_to_def split: if_splits)
    from m' E' e b e2 have "content m' ea = take (unat (size_bytes E'))
        (take (unat (size_bytes E)) bs1 @ take (unat (nrec * reclen)) src @
         drop (unat (size_bytes E) + unat (nrec * reclen)) bs1)"
      by (simp add: content_def)
    also have "\<dots> = content m ea @ take (unat nrec * unat reclen) src"
      using pre cl k sz mul by simp
    finally have "content m' ea = content m ea @ take (unat nrec * unat reclen) src" .
    with E' sz cl k mul show ?thesis
      by simp
  qed
qed

text \<open>
  Claim C5. A successful append must leave the old content in place. The code does not,
  at one input, through the wrap-around of \<^verbatim>\<open>nsize * 4\<close> and \<^verbatim>\<open>nsize * 2\<close> in
  \<^verbatim>\<open>resize\<close>: with a 32-bit \<^verbatim>\<open>size_t\<close>, on the array of \<open>2^31\<close> bytes that
  \<^verbatim>\<open>elasticarray_init(0x80000000, 1)\<close> returns, \<^verbatim>\<open>elasticarray_append\<close> of zero records
  returns 0, having freed the storage: the logical size is still \<open>2^31\<close> and no byte of the
  content is left.
\<close>

theorem append_loses_content:
  "elasticarray_init 0x80000000 1 (mem_empty grant_all :: 32 word mem) = Some (Some 1, big_mem) \<and>
   ea_inv big_mem 1 \<and>
   length (content big_mem 1) = 2147483648 \<and>
   elasticarray_append 1 [] 0 1 big_mem =
     Some (0, big_mem\<lparr>objs := [1 \<mapsto> \<lparr>size_bytes = 0x80000000, alloc = 0, buf = None\<rparr>],
                      blocks := Map.empty\<rparr>) \<and>
   content (big_mem\<lparr>objs := [1 \<mapsto> \<lparr>size_bytes = 0x80000000, alloc = 0, buf = None\<rparr>],
                     blocks := Map.empty\<rparr>) 1 = []"
  using big1 big2 big4 big5 by simp

end
